theory Spec2Isabelle
  imports Complex_Main "HOL-Library.AList" "HOL-Library.Multiset"
begin

section \<open>Shared analysis state (tools.py, DATA\_STATE)\<close>

text \<open>
  The four dictionaries of \<^verbatim>\<open>DATA_STATE\<close> are association lists in insertion order,
  as a Python dict iterates: \<^verbatim>\<open>d[k] = v\<close> is \<open>AList.update k v d\<close> (an existing key
  keeps its place, a new key goes to the end), \<^verbatim>\<open>k in d\<close> is \<open>py_in k d\<close>,
  \<^verbatim>\<open>d.get(k)\<close> is \<open>map_of d k\<close>, and \<^verbatim>\<open>not d\<close> is \<open>d = []\<close>.

  Python floats are idealised as real numbers: rounding, infinities and NaN are outside
  the model. A data frame is the list of its rows; of a row only the columns the code
  reads (\<^verbatim>\<open>Date\<close>, as a day number, and \<^verbatim>\<open>Close\<close>) are kept. A string is the list
  of the bytes of its UTF-8 encoding (so are the glyphs of the messages); letters and
  white space are the ASCII ones.
\<close>

type_synonym ticker = string

record bar =
  Date :: int
  Close :: real

type_synonym frame = "bar list"

record risk =
  sharpe :: real
  beta :: real
  var_95 :: real
  volatility :: real

record forecast =
  current :: real
  predicted :: real
  change_pct :: real

datatype polarity = POSITIVE | NEGATIVE

record sentiment_entry =
  score :: real
  label :: polarity

record data_state =
  portfolio :: "(ticker \<times> frame) list"
  forecasts :: "(ticker \<times> forecast) list"
  risk_metrics :: "(ticker \<times> risk) list"
  sentiment :: "(ticker \<times> sentiment_entry) list"

definition reset_state :: data_state where
  "reset_state = \<lparr>portfolio = [], forecasts = [], risk_metrics = [], sentiment = []\<rparr>"

definition py_in :: "'k \<Rightarrow> ('k \<times> 'v) list \<Rightarrow> bool" where
  "py_in k d = (map_of d k \<noteq> None)"

subsection \<open>Text formatting\<close>

text \<open>
  The float format specifications of the f-strings (\<^verbatim>\<open>:.2f\<close>, \<^verbatim>\<open>:+.2f\<close>, \<^verbatim>\<open>:.2%\<close>)
  are functions of the interpreter, taken as parameters.
\<close>

record py_format =
  fmt_2f :: "real \<Rightarrow> string"
  fmt_signed_2f :: "real \<Rightarrow> string"
  fmt_2pct :: "real \<Rightarrow> string"

fun show_nat :: "nat \<Rightarrow> string" where
  "show_nat n = (if n < 10 then [''0123456789'' ! n]
                 else show_nat (n div 10) @ [''0123456789'' ! (n mod 10)])"

declare show_nat.simps [simp del]

definition cross_mark :: string where
  "cross_mark = [CHR 0xE2, CHR 0x9D, CHR 0x8C]"

definition trophy :: string where
  "trophy = [CHR 0xF0, CHR 0x9F, CHR 0x8F, CHR 0x86]"

section \<open>Exceptions, external calls and configuration\<close>

text \<open>
  A raised exception is a value: its class name and its message (\<^verbatim>\<open>str(e)\<close>).
  The calls that leave the repository are parameters of the model, collected in the
  record \<open>env\<close>:
  \<^item> \<^verbatim>\<open>yf.download(ticker, period=...)\<close>, which raises or returns a frame (maybe empty);
  \<^item> the seasonal model: \<^verbatim>\<open>m.fit(df_prophet)\<close>, \<^verbatim>\<open>m.make_future_dataframe(periods=days)\<close>
    and \<^verbatim>\<open>m.predict(future)\<close> together give the \<^verbatim>\<open>yhat\<close> column of the forecast
    frame, or raise;
  \<^item> \<^verbatim>\<open>plt.savefig(plot_path)\<close>, which writes the chart file or raises;
  \<^item> \<^verbatim>\<open>random.uniform(-0.5, 0.5)\<close>: the value of the n-th draw;
  \<^item> the language model bound to the tools: the reply (text and tool calls) of its
    n-th call on a list of messages, or an exception;
  \<^item> what the tool node of the graph library does with an exception of a tool (a tool
    message with some content, or \<open>None\<close>: it raises the exception again), and the
    library's recursion limit for a graph run that is given none;
  \<^item> the formatted date of \<^verbatim>\<open>datetime.now()\<close>, the fields of \<^verbatim>\<open>config\<close> that the
    code reads, and the float formats.
\<close>

datatype py_exception = PyException (exc_type: string) (exc_msg: string)

datatype download = Raised py_exception | Frame frame

datatype tool_call =
    Fetch_call string "string option"
  | Risk_call "string option"
  | Forecast_call ticker "int option"
  | Sentiment_call ticker
  | Compare_call

datatype message =
    SystemMessage string
  | HumanMessage string
  | AIMessage string "tool_call list"
  | ToolMessage string

record env =
  yf_download :: "ticker \<Rightarrow> string \<Rightarrow> download"
  prophet_predict :: "frame \<Rightarrow> int \<Rightarrow> py_exception + real list"
  savefig :: "string \<Rightarrow> py_exception option"
  random_uniform :: "nat \<Rightarrow> real"
  llm_invoke :: "nat \<Rightarrow> message list \<Rightarrow> py_exception + string \<times> tool_call list"
  tool_error_content :: "py_exception \<Rightarrow> string option"
  default_recursion_limit :: nat
  current_date :: string
  ENABLE_SENTIMENT :: bool
  DEFAULT_PERIOD :: string
  DEFAULT_FORECAST_DAYS :: int
  ASSETS_DIR :: string
  format :: py_format

subsection \<open>String operations\<close>

text \<open>
  \<^verbatim>\<open>str.strip()\<close> removes the white space at both ends, \<^verbatim>\<open>str.upper()\<close> maps the
  letters a to z to A to Z, \<^verbatim>\<open>str.split(',')\<close> cuts at every comma (the empty string
  gives one empty piece) and \<^verbatim>\<open>sep.join(xs)\<close> puts the separator between the pieces.
\<close>

definition whitespace :: string where
  "whitespace = [CHR 0x09, CHR 0x0A, CHR 0x0B, CHR 0x0C, CHR 0x0D,
                 CHR 0x1C, CHR 0x1D, CHR 0x1E, CHR 0x1F, CHR 0x20]"

definition strip :: "string \<Rightarrow> string" where
  "strip s = rev (dropWhile (\<lambda>c. c \<in> set whitespace)
                (rev (dropWhile (\<lambda>c. c \<in> set whitespace) s)))"

definition lowercase :: string where
  "lowercase = ''abcdefghijklmnopqrstuvwxyz''"

definition uppercase :: string where
  "uppercase = ''ABCDEFGHIJKLMNOPQRSTUVWXYZ''"

definition to_upper :: "char \<Rightarrow> char" where
  "to_upper c = (case map_of (zip lowercase uppercase) c of None \<Rightarrow> c | Some u \<Rightarrow> u)"

definition upper :: "string \<Rightarrow> string" where
  "upper s = map to_upper s"

definition to_lower :: "char \<Rightarrow> char" where
  "to_lower c = (case map_of (zip uppercase lowercase) c of None \<Rightarrow> c | Some l \<Rightarrow> l)"

definition capitalize :: "string \<Rightarrow> string" where
  "capitalize s = (case s of [] \<Rightarrow> [] | c # cs \<Rightarrow> to_upper c # map to_lower cs)"

fun split_on :: "char \<Rightarrow> string \<Rightarrow> string list" where
  "split_on c [] = [[]]"
| "split_on c (x # xs) =
     (if x = c then [] # split_on c xs
      else (x # hd (split_on c xs)) # tl (split_on c xs))"

fun join :: "string \<Rightarrow> string list \<Rightarrow> string" where
  "join sep [] = []"
| "join sep [x] = x"
| "join sep (x # y # ys) = x @ sep @ join sep (y # ys)"

text \<open>
  A string of the model is the UTF-8 encoding of the Python string, and a slice
  \<^verbatim>\<open>s[:n]\<close> keeps the first \<open>n\<close> characters, not bytes: a character is a byte that
  is no continuation byte (bit pattern \<open>10xxxxxx\<close>) with the continuation bytes that
  follow it.
\<close>

definition is_continuation :: "char \<Rightarrow> bool" where
  "is_continuation c = (digit7 c \<and> \<not> digit6 c)"

fun take_chars :: "nat \<Rightarrow> string \<Rightarrow> string" where
  "take_chars 0 s = []"
| "take_chars (Suc n) [] = []"
| "take_chars (Suc n) (c # cs) =
     c # takeWhile is_continuation cs @ take_chars n (dropWhile is_continuation cs)"

definition starts_with :: "string \<Rightarrow> string \<Rightarrow> bool" where
  "starts_with p l = (take (length p) l = p)"

section \<open>Fetch step (tools.py, fetch\_portfolio\_data)\<close>

definition check_mark :: string where
  "check_mark = [CHR 0xE2, CHR 0x9C, CHR 0x85]"

text \<open>
  The body of the loop: the \<^verbatim>\<open>try\<close> block around the download, with its
  \<^verbatim>\<open>except Exception\<close> branch. It returns the state and the line appended to
  \<^verbatim>\<open>results\<close>.
\<close>

definition fetch_one :: "env \<Rightarrow> string \<Rightarrow> ticker \<Rightarrow> data_state \<Rightarrow> data_state \<times> string" where
  "fetch_one e period t s =
     (case yf_download e t period of
        Frame df \<Rightarrow>
          if df \<noteq> []
          then (s\<lparr>portfolio := AList.update t df (portfolio s)\<rparr>,
                check_mark @ '' '' @ t @ '': '' @ show_nat (length df) @ '' data points'')
          else (s, cross_mark @ '' '' @ t @ '': No data available'')
      | Raised ex \<Rightarrow> (s, cross_mark @ '' '' @ t @ '': '' @ take_chars 50 (exc_msg ex)))"

fun fetch_loop :: "env \<Rightarrow> string \<Rightarrow> ticker list \<Rightarrow> data_state \<Rightarrow> string list
                   \<Rightarrow> data_state \<times> string list" where
  "fetch_loop e period [] s results = (s, results)"
| "fetch_loop e period (t # ts) s results =
     (case fetch_one e period t s of
        (s', line) \<Rightarrow> fetch_loop e period ts s' (results @ [line]))"

definition period_of :: "env \<Rightarrow> string option \<Rightarrow> string" where
  "period_of e period = (case period of None \<Rightarrow> DEFAULT_PERIOD e | Some p \<Rightarrow> p)"

definition ticker_list_of :: "string \<Rightarrow> ticker list" where
  "ticker_list_of tickers = map (\<lambda>t. upper (strip t)) (split_on CHR '','' tickers)"

definition fetch_portfolio_data ::
  "env \<Rightarrow> string \<Rightarrow> string option \<Rightarrow> data_state \<Rightarrow> data_state \<times> string" where
  "fetch_portfolio_data e tickers period s =
     (case fetch_loop e (period_of e period) (ticker_list_of tickers) s [] of
        (s', results) \<Rightarrow> (s', join [CHR 0x0A] results))"

text \<open>
  What the download of one ticker amounts to (a non-empty frame, or nothing), and the two
  kinds of status line.
\<close>

definition fetched :: "env \<Rightarrow> string \<Rightarrow> ticker \<Rightarrow> frame option" where
  "fetched e period t =
     (case yf_download e t period of
        Frame df \<Rightarrow> if df \<noteq> [] then Some df else None
      | Raised ex \<Rightarrow> None)"

definition success_line :: "ticker \<Rightarrow> string \<Rightarrow> bool" where
  "success_line t l = starts_with (check_mark @ '' '' @ t @ '': '') l"

definition failure_line :: "ticker \<Rightarrow> string \<Rightarrow> bool" where
  "failure_line t l = starts_with (cross_mark @ '' '' @ t @ '': '') l"

section \<open>Risk metrics step (tools.py, calculate\_risk\_metrics)\<close>

subsection \<open>The statistics of pandas and numpy, over the reals\<close>

text \<open>
  \<^verbatim>\<open>pct_change().dropna()\<close> is the list of the simple returns \<open>x\<^sub>i / x\<^sub>i\<^sub>-\<^sub>1 - 1\<close>; the
  standard deviation, the variance and the covariance are the sample ones (divisor
  \<open>n - 1\<close>); \<^verbatim>\<open>np.cov\<close> raises a \<^verbatim>\<open>ValueError\<close> when its two arguments differ in
  length; \<^verbatim>\<open>np.percentile\<close> interpolates linearly between the two nearest ranks.
  \<^verbatim>\<open>xs.iloc[-n:]\<close> is the slice from position \<open>-n\<close>: the last \<open>n\<close> items, but the
  whole list when \<open>n = 0\<close>, since \<open>-0\<close> is the position 0.
\<close>

definition pct_change :: "real list \<Rightarrow> real list" where
  "pct_change xs = map (\<lambda>(prev, x). x / prev - 1) (zip xs (tl xs))"

definition mean :: "real list \<Rightarrow> real" where
  "mean xs = sum_list xs / real (length xs)"

definition var :: "real list \<Rightarrow> real" where
  "var xs = sum_list (map (\<lambda>x. (x - mean xs)\<^sup>2) xs) / (real (length xs) - 1)"

definition std :: "real list \<Rightarrow> real" where
  "std xs = sqrt (var xs)"

definition np_cov :: "real list \<Rightarrow> real list \<Rightarrow> py_exception + real" where
  "np_cov xs ys =
     (if length xs \<noteq> length ys
      then Inl (PyException ''ValueError''
             ''all the input array dimensions except for the concatenation axis must match exactly'')
      else Inr (sum_list (map (\<lambda>(x, y). (x - mean xs) * (y - mean ys)) (zip xs ys))
                / (real (length xs) - 1)))"

definition np_percentile :: "real list \<Rightarrow> real \<Rightarrow> real" where
  "np_percentile xs q =
     (let ys = sort xs;
          h = (real (length xs) - 1) * q / 100;
          lo = nat \<lfloor>h\<rfloor>;
          hi = min (lo + 1) (length xs - 1)
      in ys ! lo + (h - real lo) * (ys ! hi - ys ! lo))"

definition iloc_last :: "nat \<Rightarrow> 'a list \<Rightarrow> 'a list" where
  "iloc_last n xs = (if n = 0 then xs else drop (length xs - n) xs)"

subsection \<open>The metrics of one ticker\<close>

definition warning_sign :: string where
  "warning_sign = [CHR 0xE2, CHR 0x9A, CHR 0xA0, CHR 0xEF, CHR 0xB8, CHR 0x8F]"

definition bar_chart :: string where
  "bar_chart = [CHR 0xF0, CHR 0x9F, CHR 0x93, CHR 0x8A]"

definition bullet :: string where
  "bullet = [CHR 0xE2, CHR 0x80, CHR 0xA2]"

text \<open>
  Lines 116 to 140: the metrics computed from the returns of a ticker and the returns of
  the benchmark. The only call that can raise is \<^verbatim>\<open>np.cov\<close>.
\<close>

definition sharpe_ratio_of :: "real list \<Rightarrow> real" where
  "sharpe_ratio_of returns =
     (let risk_free_rate = 0.02;
          excess_returns = map (\<lambda>r. r - risk_free_rate / 252) returns;
          std_dev = std returns
      in if std_dev > 0 then sqrt 252 * mean excess_returns / std_dev else 0)"

definition beta_of :: "real list \<Rightarrow> real list \<Rightarrow> py_exception + real" where
  "beta_of returns spy_returns =
     (let min_len = min (length returns) (length spy_returns);
          aligned_returns = iloc_last min_len returns;
          aligned_spy = iloc_last min_len spy_returns
      in if length aligned_returns > 0
         then (case np_cov aligned_returns aligned_spy of
                 Inl ex \<Rightarrow> Inl ex
               | Inr covariance \<Rightarrow>
                   let market_variance = var aligned_spy
                   in Inr (if market_variance > 0 then covariance / market_variance else 1.0))
         else Inr 1.0)"

definition metrics_of :: "real list \<Rightarrow> real list \<Rightarrow> py_exception + risk" where
  "metrics_of returns spy_returns =
     (case beta_of returns spy_returns of
        Inl ex \<Rightarrow> Inl ex
      | Inr b \<Rightarrow>
          Inr \<lparr>sharpe = sharpe_ratio_of returns,
               beta = b,
               var_95 = np_percentile returns 5,
               volatility = std returns * sqrt 252\<rparr>)"

definition risk_entry :: "py_format \<Rightarrow> ticker \<Rightarrow> risk \<Rightarrow> string" where
  "risk_entry fm t m =
     bar_chart @ '' '' @ t @ '':'' @ [CHR 0x0A]
     @ ''   '' @ bullet @ '' Sharpe Ratio: '' @ fmt_2f fm (sharpe m) @ [CHR 0x0A]
     @ ''   '' @ bullet @ '' Beta: '' @ fmt_2f fm (beta m) @ [CHR 0x0A]
     @ ''   '' @ bullet @ '' VaR (95%): '' @ fmt_2pct fm (var_95 m) @ [CHR 0x0A]
     @ ''   '' @ bullet @ '' Volatility: '' @ fmt_2pct fm (volatility m)"

subsection \<open>The step\<close>

text \<open>
  The loop over the tickers. A ticker that is not in the portfolio is skipped; one with
  fewer than 30 returns gets a notice; an exception ends the loop and leaves the state
  as the tickers before it made it.
\<close>

fun risk_loop :: "py_format \<Rightarrow> real list \<Rightarrow> ticker list \<Rightarrow> data_state \<Rightarrow> string list
                  \<Rightarrow> data_state \<times> (py_exception + string list)" where
  "risk_loop fm spy_returns [] s risk_report = (s, Inr risk_report)"
| "risk_loop fm spy_returns (t # ts) s risk_report =
     (case map_of (portfolio s) t of
        None \<Rightarrow> risk_loop fm spy_returns ts s risk_report
      | Some df \<Rightarrow>
          let returns = pct_change (map Close df)
          in if length returns < 30
             then risk_loop fm spy_returns ts s
                    (risk_report @ [warning_sign @ ''  '' @ t @ '': Insufficient data''])
             else (case metrics_of returns spy_returns of
                     Inl ex \<Rightarrow> (s, Inl ex)
                   | Inr m \<Rightarrow>
                       risk_loop fm spy_returns ts
                         (s\<lparr>risk_metrics := AList.update t m (risk_metrics s)\<rparr>)
                         (risk_report @ [risk_entry fm t m])))"

definition no_portfolio_error :: string where
  "no_portfolio_error = cross_mark @ '' Error: No portfolio data loaded. Fetch data first.''"

definition benchmark_error :: string where
  "benchmark_error = cross_mark @ '' Error: Could not fetch market benchmark (SPY)''"

definition no_metrics :: string where
  "no_metrics = cross_mark @ '' No metrics calculated''"

text \<open>
  \<^verbatim>\<open>if tickers\<close> holds for a string that is neither \<^verbatim>\<open>None\<close> nor empty. The download
  of the benchmark is inside a \<^verbatim>\<open>try\<close> with a bare \<^verbatim>\<open>except\<close>; the loop is not.
\<close>

definition calculate_risk_metrics ::
  "env \<Rightarrow> string option \<Rightarrow> data_state \<Rightarrow> data_state \<times> (py_exception + string)" where
  "calculate_risk_metrics e tickers s =
     (if portfolio s = [] then (s, Inr no_portfolio_error)
      else
        let ticker_list =
              (case tickers of
                 None \<Rightarrow> map fst (portfolio s)
               | Some ts \<Rightarrow> if ts \<noteq> [] then ticker_list_of ts else map fst (portfolio s))
        in case yf_download e ''SPY'' ''2y'' of
             Raised ex \<Rightarrow> (s, Inr benchmark_error)
           | Frame spy \<Rightarrow>
               let spy_returns = pct_change (map Close spy)
               in (case risk_loop (format e) spy_returns ticker_list s [] of
                     (s', Inl ex) \<Rightarrow> (s', Inl ex)
                   | (s', Inr risk_report) \<Rightarrow>
                       (s', Inr (if risk_report \<noteq> [] then join [CHR 0x0A, CHR 0x0A] risk_report
                                 else no_metrics))))"

text \<open>
  An entry of the risk report starts with the warning sign or with the chart glyph; the
  first two bytes of either differ from those of the cross mark.
\<close>

definition entry_ok :: "string \<Rightarrow> bool" where
  "entry_ok l = (2 \<le> length l \<and> take 2 l \<noteq> [CHR 0xE2, CHR 0x9D])"

section \<open>Forecast step (tools.py, ensemble\_forecast)\<close>

definition chart_up :: string where
  "chart_up = [CHR 0xF0, CHR 0x9F, CHR 0x93, CHR 0x88]"

text \<open>
  \<^verbatim>\<open>xs[start:]\<close> and \<^verbatim>\<open>xs.iloc[start:]\<close> for an integer \<open>start\<close>: a negative start
  counts from the end and is cut off at the beginning of the list.
\<close>

definition slice_from :: "int \<Rightarrow> 'a list \<Rightarrow> 'a list" where
  "slice_from start xs =
     (if start < 0 then drop (nat (int (length xs) + start)) xs else drop (nat start) xs)"

text \<open>
  The linear trend: \<^verbatim>\<open>LinearRegression().fit(X, y)\<close> on one feature is the least-squares
  line (slope 0 when all the \<open>x\<close> are equal, as the minimum-norm solution is); fitting
  or predicting on no samples raises a \<^verbatim>\<open>ValueError\<close>.
  \<^verbatim>\<open>X\<close> is the column \<^verbatim>\<open>days_since_start\<close>, \<^verbatim>\<open>np.arange(X[-1][0] + 1, X[-1][0] + days + 1)\<close>
  the days of the horizon.
\<close>

definition no_samples :: py_exception where
  "no_samples = PyException ''ValueError'' ''Found array with 0 sample(s)''"

definition lr_fit :: "real list \<Rightarrow> real list \<Rightarrow> real \<times> real" where
  "lr_fit xs ys =
     (let coef = sum_list (map (\<lambda>(x, y). (x - mean xs) * (y - mean ys)) (zip xs ys))
                 / sum_list (map (\<lambda>x. (x - mean xs)\<^sup>2) xs)
      in (coef, mean ys - coef * mean xs))"

definition days_since_start :: "frame \<Rightarrow> int list" where
  "days_since_start df = map (\<lambda>b. Date b - Min (set (map Date df))) df"

definition lr_forecast_of :: "frame \<Rightarrow> int \<Rightarrow> py_exception + real list" where
  "lr_forecast_of df days =
     (let X = days_since_start df;
          y = map Close df
      in if X = [] then Inl no_samples
         else
           let (coef, intercept) = lr_fit (map real_of_int X) y;
               future_days = [last X + 1 .. last X + days]
           in if future_days = [] then Inl no_samples
              else Inr (map (\<lambda>x. intercept + coef * real_of_int x) future_days))"

text \<open>
  \<^verbatim>\<open>0.7 * prophet_pred + 0.3 * lr_forecast\<close> on two one-dimensional arrays: elementwise
  when the lengths agree, a single value is broadcast, and any other pair of lengths
  raises.
\<close>

definition np_blend :: "real list \<Rightarrow> real list \<Rightarrow> py_exception + real list" where
  "np_blend prophet_pred lr_forecast =
     (if length prophet_pred = length lr_forecast
      then Inr (map (\<lambda>(p, l). 0.7 * p + 0.3 * l) (zip prophet_pred lr_forecast))
      else if length prophet_pred = 1
      then Inr (map (\<lambda>l. 0.7 * hd prophet_pred + 0.3 * l) lr_forecast)
      else if length lr_forecast = 1
      then Inr (map (\<lambda>p. 0.7 * p + 0.3 * hd lr_forecast) prophet_pred)
      else Inl (PyException ''ValueError'' ''operands could not be broadcast together''))"

definition ensemble_pred_of :: "env \<Rightarrow> frame \<Rightarrow> int \<Rightarrow> py_exception + real list" where
  "ensemble_pred_of e df days =
     (case prophet_predict e df days of
        Inl ex \<Rightarrow> Inl ex
      | Inr yhat \<Rightarrow>
          (case lr_forecast_of df days of
             Inl ex \<Rightarrow> Inl ex
           | Inr lr_forecast \<Rightarrow> np_blend (slice_from (- days) yhat) lr_forecast))"

text \<open>
  The chart: \<^verbatim>\<open>pd.date_range(last_date, periods=days+1)[1:]\<close> raises for a negative
  number of periods and has \<open>days\<close> dates otherwise; \<^verbatim>\<open>ax1.plot\<close> raises when the dates
  and the blended values differ in number. \<^verbatim>\<open>plt.savefig\<close> writes the file
  \<^verbatim>\<open>{ASSETS_DIR}/{ticker}_forecast.png\<close>, which is not part of the state, or raises.
\<close>

definition plot_forecast :: "int \<Rightarrow> real list \<Rightarrow> py_exception option" where
  "plot_forecast days ensemble_pred =
     (if days + 1 < 0
      then Some (PyException ''ValueError'' ''Number of periods must be non-negative'')
      else if length ensemble_pred \<noteq> nat days
      then Some (PyException ''ValueError'' ''x and y must have same first dimension'')
      else None)"

definition index_error :: py_exception where
  "index_error = PyException ''IndexError'' ''index -1 is out of bounds for axis 0 with size 0''"

definition plot_path :: "env \<Rightarrow> ticker \<Rightarrow> string" where
  "plot_path e ticker = ASSETS_DIR e @ ''/'' @ ticker @ ''_forecast.png''"

definition forecast_of :: "env \<Rightarrow> ticker \<Rightarrow> frame \<Rightarrow> int \<Rightarrow> py_exception + forecast" where
  "forecast_of e ticker df days =
     (case ensemble_pred_of e df days of
        Inl ex \<Rightarrow> Inl ex
      | Inr ensemble_pred \<Rightarrow>
          (case plot_forecast days ensemble_pred of
             Some ex \<Rightarrow> Inl ex
           | None \<Rightarrow>
               (case savefig e (plot_path e ticker) of
                  Some ex \<Rightarrow> Inl ex
                | None \<Rightarrow>
                    if df = [] \<or> ensemble_pred = [] then Inl index_error
                    else
                      let current_price = Close (last df);
                          predicted_price = last ensemble_pred;
                          change = ((predicted_price - current_price) / current_price) * 100
                      in Inr \<lparr>current = current_price, predicted = predicted_price,
                              change_pct = change\<rparr>)))"

definition not_loaded :: "ticker \<Rightarrow> string" where
  "not_loaded ticker = cross_mark @ '' Error: '' @ ticker @ '' not loaded.''"

definition forecast_summary :: "py_format \<Rightarrow> ticker \<Rightarrow> forecast \<Rightarrow> string" where
  "forecast_summary fm ticker f =
     chart_up @ '' '' @ ticker @ '': $'' @ fmt_2f fm (current f) @ '' -> $''
     @ fmt_2f fm (predicted f) @ '' ('' @ fmt_signed_2f fm (change_pct f) @ ''%)''"

definition ensemble_forecast ::
  "env \<Rightarrow> ticker \<Rightarrow> int option \<Rightarrow> data_state \<Rightarrow> data_state \<times> (py_exception + string)" where
  "ensemble_forecast e ticker days s =
     (let days = (case days of None \<Rightarrow> DEFAULT_FORECAST_DAYS e | Some d \<Rightarrow> d)
      in case map_of (portfolio s) ticker of
           None \<Rightarrow> (s, Inr (not_loaded ticker))
         | Some df \<Rightarrow>
             (case forecast_of e ticker df days of
                Inl ex \<Rightarrow> (s, Inl ex)
              | Inr f \<Rightarrow>
                  (s\<lparr>forecasts := AList.update ticker f (forecasts s)\<rparr>,
                   Inr (forecast_summary (format e) ticker f))))"

section \<open>Sentiment step (tools.py, analyze\_sentiment)\<close>

definition info_sign :: string where
  "info_sign = [CHR 0xE2, CHR 0x84, CHR 0xB9, CHR 0xEF, CHR 0xB8, CHR 0x8F]"

definition newspaper :: string where
  "newspaper = [CHR 0xF0, CHR 0x9F, CHR 0x93, CHR 0xB0]"

definition label_text :: "polarity \<Rightarrow> string" where
  "label_text l = (case l of POSITIVE \<Rightarrow> ''POSITIVE'' | NEGATIVE \<Rightarrow> ''NEGATIVE'')"

text \<open>
  The second argument is the value that \<^verbatim>\<open>random.uniform(-0.5, 0.5)\<close> draws in this
  call; it is read only when sentiment is enabled.
\<close>

definition analyze_sentiment :: "env \<Rightarrow> real \<Rightarrow> ticker \<Rightarrow> data_state \<Rightarrow> data_state \<times> string" where
  "analyze_sentiment e draw ticker s =
     (if \<not> ENABLE_SENTIMENT e then (s, info_sign @ '' Sentiment Disabled'')
      else
        let sc = draw;
            lb = (if sc > 0 then POSITIVE else NEGATIVE)
        in (s\<lparr>sentiment := AList.update ticker \<lparr>score = sc, label = lb\<rparr> (sentiment s)\<rparr>,
            newspaper @ '' '' @ ticker @ '' Sentiment: '' @ label_text lb
            @ '' ('' @ fmt_2f (format e) sc @ '')''))"

section \<open>Ranking step (tools.py, compare\_portfolio)\<close>

text \<open>
  \<^verbatim>\<open>forecast = DATA_STATE['forecasts'].get(ticker, {})\<close> followed by
  \<^verbatim>\<open>forecast.get('change_pct', 0)\<close>: the stored change, or 0 without a forecast entry.
\<close>

definition forecast_change :: "data_state \<Rightarrow> ticker \<Rightarrow> real" where
  "forecast_change s t = (case map_of (forecasts s) t of None \<Rightarrow> 0 | Some f \<Rightarrow> change_pct f)"

definition score_of :: "data_state \<Rightarrow> ticker \<times> risk \<Rightarrow> ticker \<times> real" where
  "score_of s = (\<lambda>(t, m). (t, (sharpe m * 0.5) + (forecast_change s t * 0.1)))"

text \<open>
  \<^verbatim>\<open>ranking.sort(key=lambda x: x[1], reverse=True)\<close>: the list sort is stable, and with
  \<^verbatim>\<open>reverse=True\<close> it reverses the list, sorts it stably in ascending order and
  reverses it again, so that equal keys keep their original order.
\<close>

definition sort_reverse :: "('a \<times> real) list \<Rightarrow> ('a \<times> real) list" where
  "sort_reverse xs = rev (sort_key snd (rev xs))"

definition ranking :: "data_state \<Rightarrow> (ticker \<times> real) list" where
  "ranking s = sort_reverse (map (score_of s) (risk_metrics s))"

definition ranking_line :: "py_format \<Rightarrow> nat \<times> ticker \<times> real \<Rightarrow> string" where
  "ranking_line fm = (\<lambda>(i, t, sc).
     show_nat i @ ''. '' @ t @ '' (Score: '' @ fmt_2f fm sc @ '')'' @ [CHR 0x0A])"

definition compare_portfolio :: "py_format \<Rightarrow> data_state \<Rightarrow> string" where
  "compare_portfolio fm s =
     (if risk_metrics s = [] then cross_mark @ '' Run risk analysis first.''
      else trophy @ '' PORTFOLIO RANKING:'' @ [CHR 0x0A]
           @ concat (map (ranking_line fm) (zip [1 ..< Suc (length (ranking s))] (ranking s))))"

text \<open>
  The ranking in the words of the specification: every ticker with a risk-metrics entry
  gets 0.5 times its sharpe plus 0.1 times its forecast change (0 without a forecast),
  and the tickers are sorted by descending score, ties in insertion order.
\<close>

definition spec_ranking :: "data_state \<Rightarrow> (ticker \<times> real) list" where
  "spec_ranking s =
     sort_key (\<lambda>(t, sc). - sc)
       (map (\<lambda>(t, m). (t, 0.5 * sharpe m
                              + 0.1 * (case map_of (forecasts s) t of None \<Rightarrow> 0
                                       | Some f \<Rightarrow> change_pct f)))
          (risk_metrics s))"

section \<open>Orchestration (agents.py)\<close>

text \<open>
  The world of a run. \<open>data\<close> is the dictionary that the global \<^verbatim>\<open>DATA_STATE\<close> of
  tools.py is bound to, the one the tools read and write. agents.py binds its own name
  \<^verbatim>\<open>DATA_STATE\<close> at import (\<^verbatim>\<open>from tools import ALL_TOOLS, DATA_STATE, reset_state\<close>) to
  the dictionary of that moment, and \<^verbatim>\<open>reset_state()\<close> rebinds the global of tools.py
  to a fresh dictionary without touching the imported one: \<open>imported\<close> is \<open>None\<close>
  while both names still denote one dictionary, and holds the imported dictionary once
  a reset has separated them. The world also counts the random draws, the calls of the
  language model and the supersteps (node executions) of the graph, and \<open>tool_log\<close>
  records the tools invoked, in order. A tool invoked with its arguments returns its
  text or raises.
\<close>

record world =
  data :: data_state
  imported :: "data_state option"
  draws :: nat
  llm_calls :: nat
  supersteps :: nat
  tool_log :: "tool_call list"

definition agents_DATA_STATE :: "world \<Rightarrow> data_state" where
  "agents_DATA_STATE w = (case imported w of None \<Rightarrow> data w | Some d \<Rightarrow> d)"

definition do_reset_state :: "world \<Rightarrow> world" where
  "do_reset_state w = w\<lparr>data := reset_state, imported := Some (agents_DATA_STATE w)\<rparr>"

definition invoke_tool :: "env \<Rightarrow> tool_call \<Rightarrow> world \<Rightarrow> world \<times> (py_exception + string)" where
  "invoke_tool e call w =
     (case call of
        Fetch_call tickers period \<Rightarrow>
          (case fetch_portfolio_data e tickers period (data w) of
             (s', res) \<Rightarrow> (w\<lparr>data := s', tool_log := tool_log w @ [call]\<rparr>, Inr res))
      | Risk_call tickers \<Rightarrow>
          (case calculate_risk_metrics e tickers (data w) of
             (s', res) \<Rightarrow> (w\<lparr>data := s', tool_log := tool_log w @ [call]\<rparr>, res))
      | Forecast_call ticker days \<Rightarrow>
          (case ensemble_forecast e ticker days (data w) of
             (s', res) \<Rightarrow> (w\<lparr>data := s', tool_log := tool_log w @ [call]\<rparr>, res))
      | Sentiment_call ticker \<Rightarrow>
          (case analyze_sentiment e (random_uniform e (draws w)) ticker (data w) of
             (s', res) \<Rightarrow>
               (w\<lparr>data := s',
                  draws := (if ENABLE_SENTIMENT e then Suc (draws w) else draws w),
                  tool_log := tool_log w @ [call]\<rparr>,
                Inr res))
      | Compare_call \<Rightarrow>
          (w\<lparr>tool_log := tool_log w @ [call]\<rparr>, Inr (compare_portfolio (format e) (data w))))"

record pipeline_result =
  steps :: "(string \<times> string) list"
  final_response :: string
  data_state :: "data_state option"

subsection \<open>Manual mode (run\_manual)\<close>

text \<open>
  The list \<^verbatim>\<open>steps\<close> of names, tools and arguments, and the loop that invokes them in
  order. An exception of a tool leaves the loop and \<^verbatim>\<open>run_manual\<close>; the log holds the
  steps completed before it (\<open>slog\<close> is \<^verbatim>\<open>results["steps"]\<close>).
\<close>

definition manual_steps :: "env \<Rightarrow> string \<Rightarrow> int \<Rightarrow> bool \<Rightarrow> (string \<times> tool_call) list" where
  "manual_steps e tickers forecast_days include_sentiment =
     [(''Fetching Data'', Fetch_call tickers None),
      (''Risk Analysis'', Risk_call (Some tickers))]
     @ map (\<lambda>t. (''Forecasting '' @ strip t, Forecast_call (strip t) (Some forecast_days)))
         (split_on CHR '','' tickers)
     @ (if include_sentiment \<and> ENABLE_SENTIMENT e
        then map (\<lambda>t. (''Sentiment '' @ strip t, Sentiment_call (strip t)))
               (split_on CHR '','' tickers)
        else [])
     @ [(''Portfolio Ranking'', Compare_call)]"

fun run_steps :: "env \<Rightarrow> (string \<times> tool_call) list \<Rightarrow> world \<Rightarrow> (string \<times> string) list
                  \<Rightarrow> world \<times> (string \<times> string) list \<times> py_exception option" where
  "run_steps e [] w slog = (w, slog, None)"
| "run_steps e ((name, call) # rest) w slog =
     (case invoke_tool e call w of
        (w', Inl ex) \<Rightarrow> (w', slog, Some ex)
      | (w', Inr res) \<Rightarrow> run_steps e rest w' (slog @ [(name, res)]))"

text \<open>
  \<^verbatim>\<open>results["data_state"] = DATA_STATE\<close> in agents.py is the imported dictionary, not
  the one the tools of this run worked on.
\<close>

definition run_manual ::
  "env \<Rightarrow> string \<Rightarrow> int \<Rightarrow> bool \<Rightarrow> world \<Rightarrow> world \<times> (py_exception + pipeline_result)" where
  "run_manual e tickers forecast_days include_sentiment w =
     (case run_steps e (manual_steps e tickers forecast_days include_sentiment)
             (do_reset_state w) [] of
        (w', slog, Some ex) \<Rightarrow> (w', Inl ex)
      | (w', slog, None) \<Rightarrow>
          (w', Inr \<lparr>steps = slog, final_response = snd (last slog),
                    data_state = Some (agents_DATA_STATE w')\<rparr>))"

subsection \<open>Autonomous mode (\_build\_graph, run\_autonomous)\<close>

text \<open>
  The compiled graph has the nodes \<^verbatim>\<open>agent\<close> and \<^verbatim>\<open>tools\<close>: the agent node calls the
  language model on the messages and appends its reply; \<^verbatim>\<open>tools_condition\<close> goes to
  the tool node when the reply has tool calls and to the end otherwise; the tool node
  invokes the calls (here one after the other, in their order) and appends a tool message
  for each. A run executes one node per superstep, yields one event per superstep, and
  raises \<^verbatim>\<open>GraphRecursionError\<close> when a node is due after as many supersteps as its
  recursion limit.
\<close>

datatype node = Agent | Tools

definition content_of :: "message \<Rightarrow> string" where
  "content_of m = (case m of SystemMessage c \<Rightarrow> c | HumanMessage c \<Rightarrow> c
                   | AIMessage c calls \<Rightarrow> c | ToolMessage c \<Rightarrow> c)"

definition tool_calls_of :: "message \<Rightarrow> tool_call list" where
  "tool_calls_of m = (case m of AIMessage c calls \<Rightarrow> calls | _ \<Rightarrow> [])"

definition recursion_error :: "nat \<Rightarrow> py_exception" where
  "recursion_error limit = PyException ''GraphRecursionError''
     (''Recursion limit of '' @ show_nat limit @ '' reached without hitting a stop condition.'')"

fun run_tool_calls :: "env \<Rightarrow> tool_call list \<Rightarrow> world \<Rightarrow> message list
                       \<Rightarrow> world \<times> (py_exception + message list)" where
  "run_tool_calls e [] w out = (w, Inr out)"
| "run_tool_calls e (c # cs) w out =
     (case invoke_tool e c w of
        (w', Inr text) \<Rightarrow> run_tool_calls e cs w' (out @ [ToolMessage text])
      | (w', Inl ex) \<Rightarrow>
          (case tool_error_content e ex of
             Some text \<Rightarrow> run_tool_calls e cs w' (out @ [ToolMessage text])
           | None \<Rightarrow> (w', Inl ex)))"

fun graph_run :: "env \<Rightarrow> nat \<Rightarrow> nat \<Rightarrow> node \<Rightarrow> message list \<Rightarrow> world
                  \<Rightarrow> (string \<times> message list) list
                  \<Rightarrow> world \<times> (string \<times> message list) list \<times> (py_exception + message list)" where
  "graph_run e limit 0 nd msgs w events = (w, events, Inl (recursion_error limit))"
| "graph_run e limit (Suc n) Agent msgs w events =
     (case llm_invoke e (llm_calls w) msgs of
        Inl ex \<Rightarrow> (w\<lparr>llm_calls := Suc (llm_calls w)\<rparr>, events, Inl ex)
      | Inr (text, calls) \<Rightarrow>
          let reply = AIMessage text calls;
              w' = w\<lparr>llm_calls := Suc (llm_calls w), supersteps := Suc (supersteps w)\<rparr>;
              events' = events @ [(''agent'', [reply])]
          in if calls \<noteq> [] then graph_run e limit n Tools (msgs @ [reply]) w' events'
             else (w', events', Inr (msgs @ [reply])))"
| "graph_run e limit (Suc n) Tools msgs w events =
     (case run_tool_calls e (tool_calls_of (last msgs)) w [] of
        (w', Inl ex) \<Rightarrow> (w', events, Inl ex)
      | (w', Inr out) \<Rightarrow>
          graph_run e limit n Agent (msgs @ out) (w'\<lparr>supersteps := Suc (supersteps w')\<rparr>)
            (events @ [(''tools'', out)]))"

text \<open>
  \<^verbatim>\<open>self.app.stream(inputs, {"recursion_limit": 15})\<close> is a run with the limit 15 that
  yields its events; \<^verbatim>\<open>self.app.invoke(inputs)\<close> is a run with the library's default
  limit that returns the final messages.
\<close>

definition app_stream :: "env \<Rightarrow> message list \<Rightarrow> nat \<Rightarrow> world
     \<Rightarrow> world \<times> (string \<times> message list) list \<times> (py_exception + message list)" where
  "app_stream e inputs limit w = graph_run e limit limit Agent inputs w []"

definition app_invoke :: "env \<Rightarrow> message list \<Rightarrow> world \<Rightarrow> world \<times> (py_exception + message list)" where
  "app_invoke e inputs w =
     (case graph_run e (default_recursion_limit e) (default_recursion_limit e) Agent inputs w [] of
        (w', events, res) \<Rightarrow> (w', res))"

definition system_prompt :: "env \<Rightarrow> string \<Rightarrow> string" where
  "system_prompt e query =
     [CHR 0x0A]
     @ ''        You are a Senior Portfolio Manager. Today is '' @ current_date e @ ''.'' @ [CHR 0x0A]
     @ ''        '' @ [CHR 0x0A]
     @ ''        Your Goal: '' @ query @ [CHR 0x0A]
     @ ''        '' @ [CHR 0x0A]
     @ ''        STRICT INSTRUCTIONS:'' @ [CHR 0x0A]
     @ ''        1. Use '' @ [CHR 0x27] @ ''fetch_portfolio_data'' @ [CHR 0x27] @ '' first.'' @ [CHR 0x0A]
     @ ''        2. Then use '' @ [CHR 0x27] @ ''calculate_risk_metrics'' @ [CHR 0x27] @ ''.'' @ [CHR 0x0A]
     @ ''        3. Then forecast each stock.'' @ [CHR 0x0A]
     @ ''        4. Finally, write an Executive Summary.'' @ [CHR 0x0A]
     @ ''        ''"

definition autonomous_inputs :: "env \<Rightarrow> string \<Rightarrow> message list" where
  "autonomous_inputs e query = [SystemMessage (system_prompt e query), HumanMessage query]"

text \<open>The body of the loop over the events: the log entry of one superstep.\<close>

definition event_steps :: "string \<times> message list \<Rightarrow> (string \<times> string) list" where
  "event_steps ev =
     (case ev of (key, messages) \<Rightarrow>
        if messages \<noteq> []
        then let content = content_of (last messages);
                 step_name = (if key = ''tools'' then ''Tool Output'' else capitalize key)
             in [(step_name,
                  if content \<noteq> [] then take_chars 300 content @ ''...''
                  else ''[Data Processed]'')]
        else [])"

definition autonomous_failure :: "(string \<times> string) list \<Rightarrow> py_exception \<Rightarrow> pipeline_result" where
  "autonomous_failure slog ex =
     \<lparr>steps = slog @ [(''Critical Error'', exc_msg ex)],
      final_response = warning_sign @ '' Autonomous Agent Error: '' @ exc_msg ex,
      data_state = None\<rparr>"

definition run_autonomous :: "env \<Rightarrow> string \<Rightarrow> world \<Rightarrow> world \<times> pipeline_result" where
  "run_autonomous e query w =
     (let inputs = autonomous_inputs e query
      in case app_stream e inputs 15 (do_reset_state w) of
           (w1, events, Inl ex) \<Rightarrow> (w1, autonomous_failure (concat (map event_steps events)) ex)
         | (w1, events, Inr streamed) \<Rightarrow>
             (case app_invoke e inputs w1 of
                (w2, Inl ex) \<Rightarrow> (w2, autonomous_failure (concat (map event_steps events)) ex)
              | (w2, Inr final_state) \<Rightarrow>
                  (w2, \<lparr>steps = concat (map event_steps events),
                        final_response = content_of (last final_state),
                        data_state = Some (agents_DATA_STATE w2)\<rparr>)))"

section \<open>Observations on states and runs\<close>

text \<open>
  A key without lower-case letters; the keys of the risk metrics and of the forecasts
  are keys of the portfolio, whose keys have no lower-case letters.
\<close>

definition no_lower :: "string \<Rightarrow> bool" where
  "no_lower k = (\<forall>c \<in> set k. c \<notin> set lowercase)"

definition keys_inv :: "data_state \<Rightarrow> bool" where
  "keys_inv s = ((\<forall>k. py_in k (portfolio s) \<longrightarrow> no_lower k)
               \<and> (\<forall>k. py_in k (risk_metrics s) \<longrightarrow> py_in k (portfolio s))
               \<and> (\<forall>k. py_in k (forecasts s) \<longrightarrow> py_in k (portfolio s)))"

text \<open>
  A sequence of tool invocations, each in the state the one before left, whether it
  returned or raised; the world at the start of a process, after the imports and before
  any reset.
\<close>

definition invoke_all :: "env \<Rightarrow> tool_call list \<Rightarrow> world \<Rightarrow> world" where
  "invoke_all e calls w = fold (\<lambda>c w. fst (invoke_tool e c w)) calls w"

definition initial_world :: world where
  "initial_world = \<lparr>data = reset_state, imported = None, draws = 0, llm_calls = 0,
                     supersteps = 0, tool_log = []\<rparr>"

text \<open>
  \<open>executes e cs w l w'\<close>: invoking the steps \<open>cs\<close> one after the other from the world
  \<open>w\<close>, each returning, gives the log \<open>l\<close> (the name of each step with its result, in
  order) and ends in the world \<open>w'\<close>.
\<close>

fun executes :: "env \<Rightarrow> (string \<times> tool_call) list \<Rightarrow> world \<Rightarrow> (string \<times> string) list
                 \<Rightarrow> world \<Rightarrow> bool" where
  "executes e [] w l w' = (l = [] \<and> w' = w)"
| "executes e ((name, call) # cs) w l w' =
     (case l of
        [] \<Rightarrow> False
      | (name', res) # l' \<Rightarrow>
          name' = name \<and> snd (invoke_tool e call w) = Inr res
          \<and> executes e cs (fst (invoke_tool e call w)) l' w')"


text \<open>
  The tool calls that the replies of the model ask for in the events of a run of the
  graph, in order: an event of the agent node holds the reply of the model.
\<close>

definition requested_calls :: "(string \<times> message list) list \<Rightarrow> tool_call list" where
  "requested_calls events =
     concat (map (\<lambda>(key, msgs). if key = ''agent'' then concat (map tool_calls_of msgs) else [])
               events)"
section \<open>Example inputs\<close>

text \<open>
  A state for the ranking step, and an environment in which the download gives 31 daily
  bars for AAA, an empty frame for BBB, three bars for CCC, two bars for SPY and raises
  for every other ticker. The two-decimal format of the example prints the few values the
  examples need and a placeholder otherwise.
\<close>

definition example_state :: data_state where
  "example_state = \<lparr>
     portfolio = [],
     forecasts = [(''AAA'', \<lparr>current = 100, predicted = 105, change_pct = 5\<rparr>)],
     risk_metrics = [(''AAA'', \<lparr>sharpe = 1, beta = 1, var_95 = 0, volatility = 0\<rparr>),
                     (''BBB'', \<lparr>sharpe = 2, beta = 1, var_95 = 0, volatility = 0\<rparr>),
                     (''CCC'', \<lparr>sharpe = 4, beta = 1, var_95 = 0, volatility = 0\<rparr>)],
     sentiment = []\<rparr>"

definition aaa_frame :: frame where
  "aaa_frame = map (\<lambda>i. \<lparr>Date = int i, Close = 100\<rparr>) [0 ..< 31]"

definition spy_frame :: frame where
  "spy_frame = [\<lparr>Date = 0, Close = 400\<rparr>, \<lparr>Date = 1, Close = 404\<rparr>]"

text \<open>A short history of a third ticker, for the forecast step.\<close>

definition ccc_frame :: frame where
  "ccc_frame = [\<lparr>Date = 10, Close = 100\<rparr>, \<lparr>Date = 11, Close = 102\<rparr>, \<lparr>Date = 12, Close = 104\<rparr>]"

definition example_fmt_2f :: "real \<Rightarrow> string" where
  "example_fmt_2f x =
     (if x = 1 then ''1.00'' else if x = 2 then ''2.00'' else if x = 1 / 4 then ''0.25''
      else if x = 104 then ''104.00'' else if x = 547 / 5 then ''109.40'' else ''#'')"

definition example_format :: py_format where
  "example_format = \<lparr>fmt_2f = example_fmt_2f, fmt_signed_2f = (\<lambda>x. ''#''),
                      fmt_2pct = (\<lambda>x. ''#'')\<rparr>"

definition example_download :: "ticker \<Rightarrow> string \<Rightarrow> download" where
  "example_download t period =
     (if t = ''AAA'' then Frame aaa_frame
      else if t = ''BBB'' then Frame []
      else if t = ''CCC'' then Frame ccc_frame
      else if t = ''SPY'' then Frame spy_frame
      else Raised (PyException ''Exception'' ''no such ticker''))"

definition example_env :: env where
  "example_env = \<lparr>
     yf_download = example_download,
     prophet_predict = (\<lambda>df days. Inr (map Close df @ replicate (nat days) 110)),
     savefig = (\<lambda>path. None),
     random_uniform = (\<lambda>n. 1 / 4),
     llm_invoke = (\<lambda>n msgs. Inr (''done'', [])),
     tool_error_content = (\<lambda>ex. None),
     default_recursion_limit = 25,
     current_date = ''November 04, 2026'',
     ENABLE_SENTIMENT = True,
     DEFAULT_PERIOD = ''2y'',
     DEFAULT_FORECAST_DAYS = 60,
     ASSETS_DIR = ''assets'',
     format = example_format\<rparr>"

text \<open>
  The state after a fetch of AAA, and the example environment with a benchmark download
  of one bar only.
\<close>

definition loaded_state :: data_state where
  "loaded_state = reset_state\<lparr>portfolio := [(''AAA'', aaa_frame)]\<rparr>"

definition stale_benchmark_env :: env where
  "stale_benchmark_env =
     example_env\<lparr>yf_download :=
       (\<lambda>t period. if t = ''SPY'' then Frame [\<lparr>Date = 0, Close = 400\<rparr>]
                    else example_download t period)\<rparr>"

text \<open>The state after a fetch of CCC.\<close>

definition small_state :: data_state where
  "small_state = reset_state\<lparr>portfolio := [(''CCC'', ccc_frame)]\<rparr>"

text \<open>
  A language model that asks for the ranking tool on every call except its second and
  those from its eleventh on, where it answers with a summary: its first conversation
  ends after one tool round, its second after eight.
\<close>

definition chatty_env :: env where
  "chatty_env =
     example_env\<lparr>llm_invoke :=
       (\<lambda>n msgs. if n = 1 \<or> 10 \<le> n then Inr (''Summary'', [])
                  else Inr ('''', [Compare_call]))\<rparr>"

text \<open>
  A language model that follows the instructions of the system prompt and depends on
  the conversation only: it asks for the fetch of CCC, then for the risk metrics, then
  for a two-day forecast of CCC, and then writes its summary.
\<close>

definition pipeline_llm :: "nat \<Rightarrow> message list \<Rightarrow> py_exception + string \<times> tool_call list" where
  "pipeline_llm n msgs =
     (if length msgs = 2 then Inr ('''', [Fetch_call ''CCC'' None])
      else if length msgs = 4 then Inr ('''', [Risk_call None])
      else if length msgs = 6 then Inr ('''', [Forecast_call ''CCC'' (Some 2)])
      else Inr (''Summary'', []))"

definition pipeline_env :: env where
  "pipeline_env = example_env\<lparr>llm_invoke := pipeline_llm\<rparr>"


text \<open>The state after a fetch and a two-day forecast of CCC.\<close>

definition forecast_state :: data_state where
  "forecast_state =
     small_state\<lparr>forecasts :=
       [(''CCC'', \<lparr>current = 104, predicted = 547 / 5, change_pct = 135 / 26\<rparr>)]\<rparr>"
section \<open>Properties of the ranking step\<close>

lemma sort_reverse_mset: "mset (sort_reverse xs) = mset xs"
  by (simp add: sort_reverse_def)

lemma sort_reverse_sorted: "sorted_wrt (\<lambda>a b. snd b \<le> snd a) (sort_reverse xs)"
proof -
  have "sorted (map snd (sort_key snd (rev xs)))"
    by (rule sorted_sort_key)
  then have "sorted_wrt (\<lambda>a b. snd a \<le> snd b) (sort_key snd (rev xs))"
    by (simp add: sorted_wrt_map)
  then show ?thesis
    by (simp add: sort_reverse_def sorted_wrt_rev)
qed

lemma sort_reverse_stable:
  "filter (\<lambda>y. snd y = k) (sort_reverse xs) = filter (\<lambda>y. snd y = k) xs"
proof -
  have "filter (\<lambda>y. snd y = k) (sort_key snd (rev xs)) = filter (\<lambda>y. snd y = k) (rev xs)"
    by (rule sort_key_stable)
  then show ?thesis
    by (simp add: sort_reverse_def rev_filter [symmetric])
qed

lemma sort_reverse_eq_sort_neg:
  "sort_reverse xs = sort_key (\<lambda>(t, sc). - sc) xs"
proof (rule properties_for_sort_key [symmetric])
  show "mset (sort_reverse xs) = mset xs"
    by (rule sort_reverse_mset)
next
  fix k :: "'a \<times> real"
  assume "k \<in> set (sort_reverse xs)"
  have eq: "(\<lambda>x. (case k of (t, sc) \<Rightarrow> - sc) = (case x of (t, sc) \<Rightarrow> - sc))
             = (\<lambda>y. snd y = snd k)"
    by (auto simp: fun_eq_iff split: prod.splits)
  show "filter (\<lambda>x. (case k of (t, sc) \<Rightarrow> - sc) = (case x of (t, sc) \<Rightarrow> - sc)) (sort_reverse xs)
        = filter (\<lambda>x. (case k of (t, sc) \<Rightarrow> - sc) = (case x of (t, sc) \<Rightarrow> - sc)) xs"
    unfolding eq by (rule sort_reverse_stable)
next
  have "sorted_wrt (\<lambda>a b. snd b \<le> snd a) (sort_reverse xs)"
    by (rule sort_reverse_sorted)
  then have "sorted_wrt (\<lambda>a b. (case a of (t, sc) \<Rightarrow> - sc) \<le> (case b of (t, sc) \<Rightarrow> - sc))
               (sort_reverse xs)"
    by (rule sorted_wrt_mono_rel [rotated]) (auto split: prod.splits)
  then show "sorted (map (\<lambda>(t, sc). - sc) (sort_reverse xs))"
    by (simp add: sorted_wrt_map)
qed

lemma score_of_spec:
  "map (score_of s) rs =
     map (\<lambda>(t, m). (t, 0.5 * sharpe m
                        + 0.1 * (case map_of (forecasts s) t of None \<Rightarrow> 0
                                 | Some f \<Rightarrow> change_pct f))) rs"
  by (simp add: score_of_def forecast_change_def split: prod.splits)

text \<open>
  Claim C1. When the ranking step runs on a state with risk metrics, the returned report
  is the header line followed by one line per entry of the ranking, in the order of the
  ranking: the position counted from 1, a dot, the ticker, and the score in the
  two-decimal format between \<^verbatim>\<open>(Score: \<close> and \<^verbatim>\<open>)\<close>. The ranking holds exactly the
  tickers of the risk metrics, each with the score 0.5 times the stored sharpe plus 0.1
  times the stored forecast change (0 without a forecast entry); the scores along the
  ranking never increase; and recomputing the ranking from the stored values in the
  specification's words gives the same list.
\<close>

theorem compare_portfolio_ranking:
  assumes "risk_metrics s \<noteq> []"
  shows "compare_portfolio fm s =
           [CHR 0xF0, CHR 0x9F, CHR 0x8F, CHR 0x86] @ '' PORTFOLIO RANKING:'' @ [CHR 0x0A]
           @ concat (map (\<lambda>(i, t, sc).
                            show_nat i @ ''. '' @ t @ '' (Score: '' @ fmt_2f fm sc @ '')''
                            @ [CHR 0x0A])
                       (zip [1 ..< Suc (length (ranking s))] (ranking s)))
         \<and> length (ranking s) = length (risk_metrics s)
         \<and> mset (ranking s) =
             mset (map (\<lambda>(t, m). (t, 0.5 * sharpe m
                                      + 0.1 * (case map_of (forecasts s) t of None \<Rightarrow> 0
                                               | Some f \<Rightarrow> change_pct f)))
                     (risk_metrics s))
         \<and> mset (map fst (ranking s)) = mset (map fst (risk_metrics s))
         \<and> sorted_wrt (\<lambda>a b. snd b \<le> snd a) (ranking s)
         \<and> ranking s = spec_ranking s"
proof -
  have l: "ranking_line fm = (\<lambda>(i, t, sc).
             show_nat i @ ''. '' @ t @ '' (Score: '' @ fmt_2f fm sc @ '')'' @ [CHR 0x0A])"
    by (simp add: ranking_line_def)
  have a: "compare_portfolio fm s =
           [CHR 0xF0, CHR 0x9F, CHR 0x8F, CHR 0x86] @ '' PORTFOLIO RANKING:'' @ [CHR 0x0A]
           @ concat (map (\<lambda>(i, t, sc).
                            show_nat i @ ''. '' @ t @ '' (Score: '' @ fmt_2f fm sc @ '')''
                            @ [CHR 0x0A])
                       (zip [1 ..< Suc (length (ranking s))] (ranking s)))"
    using assms unfolding l [symmetric] by (simp add: compare_portfolio_def trophy_def)
  have b: "mset (ranking s) =
             mset (map (\<lambda>(t, m). (t, 0.5 * sharpe m
                                      + 0.1 * (case map_of (forecasts s) t of None \<Rightarrow> 0
                                               | Some f \<Rightarrow> change_pct f)))
                     (risk_metrics s))"
    by (simp only: ranking_def sort_reverse_mset score_of_spec)
  have "map fst (map (score_of s) (risk_metrics s)) = map fst (risk_metrics s)"
    by (simp add: score_of_def split: prod.splits)
  then have c: "mset (map fst (ranking s)) = mset (map fst (risk_metrics s))"
    by (metis mset_map ranking_def sort_reverse_mset)
  from c have n: "length (ranking s) = length (risk_metrics s)"
    by (metis length_map size_mset)
  have d: "sorted_wrt (\<lambda>a b. snd b \<le> snd a) (ranking s)"
    by (simp only: ranking_def sort_reverse_sorted)
  have e: "ranking s = spec_ranking s"
    by (simp only: ranking_def spec_ranking_def sort_reverse_eq_sort_neg score_of_spec)
  from a n b c d e show ?thesis by blast
qed

text \<open>
  The example state: AAA scores 0.5 + 0.5, BBB scores 1, CCC scores 2; the tie between
  AAA and BBB keeps the insertion order, and the report lists CCC, AAA, BBB.
\<close>

theorem compare_portfolio_ranking_witness:
  "risk_metrics example_state \<noteq> []
   \<and> compare_portfolio example_format example_state =
       [CHR 0xF0, CHR 0x9F, CHR 0x8F, CHR 0x86] @ '' PORTFOLIO RANKING:'' @ [CHR 0x0A]
       @ ''1. CCC (Score: 2.00)'' @ [CHR 0x0A]
       @ ''2. AAA (Score: 1.00)'' @ [CHR 0x0A]
       @ ''3. BBB (Score: 1.00)'' @ [CHR 0x0A]
   \<and> ranking example_state = [(''CCC'', 2), (''AAA'', 1), (''BBB'', 1)]
   \<and> sorted_wrt (\<lambda>a b. snd b \<le> snd a) (ranking example_state)
   \<and> ranking example_state = spec_ranking example_state"
proof -
  have r: "ranking example_state = [(''CCC'', 2), (''AAA'', 1), (''BBB'', 1)]"
    by (simp add: ranking_def example_state_def sort_reverse_def score_of_def
        forecast_change_def)
  have n: "risk_metrics example_state \<noteq> []"
    by (simp add: example_state_def)
  have f: "fmt_2f example_format 2 = ''2.00''" "fmt_2f example_format 1 = ''1.00''"
    by (simp_all add: example_format_def example_fmt_2f_def)
  have d: "show_nat (Suc 0) = ''1''" "show_nat (Suc (Suc 0)) = ''2''"
    "show_nat (Suc (Suc (Suc 0))) = ''3''"
    by (simp_all add: show_nat.simps)
  have u: "[1 ..< Suc (length [(''CCC'', 2::real), (''AAA'', 1), (''BBB'', 1)])] = [1, 2, 3]"
    by (simp add: upt_rec)
  note T = compare_portfolio_ranking [OF n, of example_format]
  have rep: "compare_portfolio example_format example_state =
       [CHR 0xF0, CHR 0x9F, CHR 0x8F, CHR 0x86] @ '' PORTFOLIO RANKING:'' @ [CHR 0x0A]
       @ ''1. CCC (Score: 2.00)'' @ [CHR 0x0A]
       @ ''2. AAA (Score: 1.00)'' @ [CHR 0x0A]
       @ ''3. BBB (Score: 1.00)'' @ [CHR 0x0A]"
    using T [THEN conjunct1] by (simp add: r f d u)
  have so: "sorted_wrt (\<lambda>a b. snd b \<le> snd a) (ranking example_state)"
    using T by blast
  have sp: "ranking example_state = spec_ranking example_state"
    using T by blast
  from n rep r so sp show ?thesis by blast
qed

section \<open>Properties of the fetch step\<close>

lemma fetch_one_line:
  "snd (fetch_one e p t s) = snd (fetch_one e p t s0)"
  by (simp add: fetch_one_def split: download.splits)

lemma starts_with_append: "l = p @ r \<Longrightarrow> starts_with p l"
  by (simp add: starts_with_def)

lemma fetch_one_line_kind:
  "(case fetched e p t of
      Some df \<Rightarrow> success_line t (snd (fetch_one e p t s))
    | None \<Rightarrow> failure_line t (snd (fetch_one e p t s)))"
proof (cases "yf_download e t p")
  case (Raised ex)
  have "failure_line t (cross_mark @ '' '' @ t @ '': '' @ take_chars 50 (exc_msg ex))"
    unfolding failure_line_def
    by (rule starts_with_append [where r = "take_chars 50 (exc_msg ex)"]) simp
  with Raised show ?thesis
    by (simp add: fetch_one_def fetched_def)
next
  case (Frame df)
  show ?thesis
  proof (cases "df = []")
    case True
    have "failure_line t (cross_mark @ '' '' @ t @ '': No data available'')"
      unfolding failure_line_def
      by (rule starts_with_append [where r = "''No data available''"]) simp
    with Frame True show ?thesis
      by (simp add: fetch_one_def fetched_def)
  next
    case False
    have "success_line t (check_mark @ '' '' @ t @ '': '' @ show_nat (length df) @ '' data points'')"
      unfolding success_line_def
      by (rule starts_with_append [where r = "show_nat (length df) @ '' data points''"]) simp
    with Frame False show ?thesis
      by (simp add: fetch_one_def fetched_def)
  qed
qed

lemma fetch_one_state:
  "fst (fetch_one e p t s) =
     (case fetched e p t of
        Some df \<Rightarrow> s\<lparr>portfolio := AList.update t df (portfolio s)\<rparr>
      | None \<Rightarrow> s)"
  by (simp add: fetch_one_def fetched_def split: download.splits)

lemma fetch_loop_results:
  "snd (fetch_loop e p ts s rs) = rs @ map (\<lambda>t. snd (fetch_one e p t s0)) ts"
proof (induction ts arbitrary: s rs)
  case Nil
  then show ?case by simp
next
  case (Cons t ts)
  obtain s' line where f: "fetch_one e p t s = (s', line)"
    by (cases "fetch_one e p t s")
  then have "line = snd (fetch_one e p t s0)"
    using fetch_one_line [where e = e and p = p and t = t and s = s and ?s0.0 = s0] by simp
  with f Cons.IH [of s' "rs @ [line]"] show ?case by simp
qed

lemma fetch_loop_portfolio:
  "map_of (portfolio (fst (fetch_loop e p ts s rs))) t =
     (if t \<in> set ts
      then (case fetched e p t of Some df \<Rightarrow> Some df | None \<Rightarrow> map_of (portfolio s) t)
      else map_of (portfolio s) t)"
proof (induction ts arbitrary: s rs)
  case Nil
  then show ?case by simp
next
  case (Cons u ts)
  obtain s' line where f: "fetch_one e p u s = (s', line)"
    by (cases "fetch_one e p u s")
  then have s': "s' = (case fetched e p u of
        Some df \<Rightarrow> s\<lparr>portfolio := AList.update u df (portfolio s)\<rparr> | None \<Rightarrow> s)"
    using fetch_one_state [where e = e and p = p and t = u and s = s] by simp
  have "map_of (portfolio (fst (fetch_loop e p (u # ts) s rs))) t
        = map_of (portfolio (fst (fetch_loop e p ts s' (rs @ [line])))) t"
    using f by simp
  also have "\<dots> = (if t \<in> set ts
      then (case fetched e p t of Some df \<Rightarrow> Some df | None \<Rightarrow> map_of (portfolio s') t)
      else map_of (portfolio s') t)"
    by (rule Cons.IH)
  also have "\<dots> = (if t \<in> set (u # ts)
      then (case fetched e p t of Some df \<Rightarrow> Some df | None \<Rightarrow> map_of (portfolio s) t)
      else map_of (portfolio s) t)"
    by (auto simp: s' update_conv' split: option.splits)
  finally show ?case .
qed

lemma length_split_on: "length (split_on c s) = Suc (count_list s c)"
  by (induction s) auto

text \<open>
  Claim C4. The fetch step is a total function of its input: no input makes it raise.
  Its result is the newline-join of one status line per comma-separated piece of the
  input, and the line of a ticker is the one that fetching this ticker alone gives, so
  no ticker's outcome depends on another's. A ticker whose download gave a non-empty
  frame has a success line and is stored in the portfolio with that frame; any other
  ticker has a failure line and its portfolio entry is left as it was, so it is absent
  afterwards if it was absent before (as it is after the reset that starts a run).
\<close>

theorem fetch_portfolio_data_lines:
  "snd (fetch_portfolio_data e tickers period s) =
     join [CHR 0x0A]
       (map (\<lambda>t. snd (fetch_one e (period_of e period) t reset_state)) (ticker_list_of tickers))
   \<and> length (map (\<lambda>t. snd (fetch_one e (period_of e period) t reset_state))
               (ticker_list_of tickers))
       = length (split_on CHR '','' tickers)
   \<and> (\<forall>t \<in> set (ticker_list_of tickers).
        case fetched e (period_of e period) t of
          Some df \<Rightarrow>
            success_line t (snd (fetch_one e (period_of e period) t reset_state))
            \<and> map_of (portfolio (fst (fetch_portfolio_data e tickers period s))) t = Some df
        | None \<Rightarrow>
            failure_line t (snd (fetch_one e (period_of e period) t reset_state))
            \<and> map_of (portfolio (fst (fetch_portfolio_data e tickers period s))) t
                = map_of (portfolio s) t
            \<and> (\<not> py_in t (portfolio s)
                 \<longrightarrow> \<not> py_in t (portfolio (fst (fetch_portfolio_data e tickers period s)))))"
proof -
  let ?p = "period_of e period" and ?ts = "ticker_list_of tickers"
  have R: "fetch_portfolio_data e tickers period s =
             (fst (fetch_loop e ?p ?ts s []), join [CHR 0x0A] (snd (fetch_loop e ?p ?ts s [])))"
    by (simp add: fetch_portfolio_data_def split: prod.splits)
  have a: "snd (fetch_portfolio_data e tickers period s) =
     join [CHR 0x0A] (map (\<lambda>t. snd (fetch_one e ?p t reset_state)) ?ts)"
    using fetch_loop_results [where e = e and p = ?p and ts = ?ts and s = s and rs = "[]" and ?s0.0 = reset_state] by (simp add: R)
  have b: "length (map (\<lambda>t. snd (fetch_one e ?p t reset_state)) ?ts)
       = length (split_on CHR '','' tickers)"
    by (simp add: ticker_list_of_def)
  have c: "case fetched e ?p t of
          Some df \<Rightarrow>
            success_line t (snd (fetch_one e ?p t reset_state))
            \<and> map_of (portfolio (fst (fetch_portfolio_data e tickers period s))) t = Some df
        | None \<Rightarrow>
            failure_line t (snd (fetch_one e ?p t reset_state))
            \<and> map_of (portfolio (fst (fetch_portfolio_data e tickers period s))) t
                = map_of (portfolio s) t
            \<and> (\<not> py_in t (portfolio s)
                 \<longrightarrow> \<not> py_in t (portfolio (fst (fetch_portfolio_data e tickers period s))))"
    if "t \<in> set ?ts" for t
    using that fetch_one_line_kind [where e = e and p = ?p and t = t and s = reset_state]
      fetch_loop_portfolio [where e = e and p = ?p and ts = ?ts and s = s and rs = "[]" and t = t]
    by (simp add: R py_in_def split: option.splits)
  from a b c show ?thesis by blast
qed

text \<open>
  In the example environment the input \<^verbatim>\<open>aaa, bbb\<close> gives a success line for AAA,
  stored with its frame, and a failure line for BBB, which stays absent.
\<close>

theorem fetch_portfolio_data_lines_witness:
  "ticker_list_of ''aaa, bbb'' = [''AAA'', ''BBB'']
   \<and> fetched example_env ''2y'' ''AAA'' = Some aaa_frame
   \<and> fetched example_env ''2y'' ''BBB'' = None
   \<and> success_line ''AAA'' (snd (fetch_one example_env ''2y'' ''AAA'' reset_state))
   \<and> map_of (portfolio (fst (fetch_portfolio_data example_env ''aaa, bbb'' None reset_state)))
         ''AAA'' = Some aaa_frame
   \<and> failure_line ''BBB'' (snd (fetch_one example_env ''2y'' ''BBB'' reset_state))
   \<and> \<not> py_in ''BBB''
         (portfolio (fst (fetch_portfolio_data example_env ''aaa, bbb'' None reset_state)))"
proof -
  have l: "ticker_list_of ''aaa, bbb'' = [''AAA'', ''BBB'']"
    by (simp add: ticker_list_of_def upper_def strip_def to_upper_def whitespace_def
        lowercase_def uppercase_def)
  have p: "period_of example_env None = ''2y''"
    by (simp add: period_of_def example_env_def)
  have n: "aaa_frame \<noteq> []"
    by (simp add: aaa_frame_def)
  have a: "fetched example_env ''2y'' ''AAA'' = Some aaa_frame"
    using n by (simp add: fetched_def example_env_def example_download_def)
  have b: "fetched example_env ''2y'' ''BBB'' = None"
    by (simp add: fetched_def example_env_def example_download_def)
  have r: "\<not> py_in ''BBB'' (portfolio reset_state)"
    by (simp add: py_in_def reset_state_def)
  show ?thesis
    using fetch_portfolio_data_lines [of example_env "''aaa, bbb''" None reset_state] l p a b r
    by simp
qed

section \<open>Properties of the risk metrics step\<close>

lemma join_take2:
  assumes "2 \<le> length x"
  shows "take 2 (join sep (x # xs)) = take 2 x"
  using assms by (cases xs) simp_all

lemma entry_ok_notice: "entry_ok (warning_sign @ r)"
  by (simp add: entry_ok_def warning_sign_def)

lemma entry_ok_risk_entry: "entry_ok (risk_entry fm t m)"
  by (simp add: entry_ok_def risk_entry_def bar_chart_def)

lemma risk_loop_entries:
  "risk_loop fm spy ts s rep = (s', Inr rep') \<Longrightarrow> \<forall>l \<in> set rep. entry_ok l
     \<Longrightarrow> \<forall>l \<in> set rep'. entry_ok l"
proof (induction ts arbitrary: s rep)
  case Nil
  then show ?case by simp
next
  case (Cons t ts)
  show ?case
  proof (cases "map_of (portfolio s) t")
    case None
    with Cons show ?thesis by simp
  next
    case (Some df)
    show ?thesis
    proof (cases "length (pct_change (map Close df)) < 30")
      case True
      with Some Cons.prems(1)
      have "risk_loop fm spy ts s (rep @ [warning_sign @ ''  '' @ t @ '': Insufficient data''])
            = (s', Inr rep')"
        by simp
      moreover have "\<forall>l \<in> set (rep @ [warning_sign @ ''  '' @ t @ '': Insufficient data'']). entry_ok l"
        using Cons.prems(2) entry_ok_notice by simp
      ultimately show ?thesis by (rule Cons.IH)
    next
      case False
      show ?thesis
      proof (cases "metrics_of (pct_change (map Close df)) spy")
        case (Inl ex)
        with Some False Cons.prems(1) show ?thesis by simp
      next
        case (Inr m)
        with Some False Cons.prems(1)
        have "risk_loop fm spy ts (s\<lparr>risk_metrics := AList.update t m (risk_metrics s)\<rparr>)
                (rep @ [risk_entry fm t m]) = (s', Inr rep')"
          by simp
        moreover have "\<forall>l \<in> set (rep @ [risk_entry fm t m]). entry_ok l"
          using Cons.prems(2) entry_ok_risk_entry by simp
        ultimately show ?thesis by (rule Cons.IH)
      qed
    qed
  qed
qed

lemma join_report_differs:
  assumes "rep \<noteq> []" and "\<forall>l \<in> set rep. entry_ok l"
  shows "join sep rep \<noteq> no_portfolio_error"
proof -
  obtain x xs where rep: "rep = x # xs"
    using assms(1) by (cases rep) auto
  with assms(2) have x: "entry_ok x" by simp
  then have "take 2 (join sep rep) = take 2 x"
    by (simp add: rep join_take2 entry_ok_def)
  moreover have "take 2 no_portfolio_error = [CHR 0xE2, CHR 0x9D]"
    by (simp add: no_portfolio_error_def cross_mark_def)
  ultimately show ?thesis
    using x by (auto simp: entry_ok_def)
qed

lemma other_messages_differ:
  "benchmark_error \<noteq> no_portfolio_error" "no_metrics \<noteq> no_portfolio_error"
  by (simp_all add: benchmark_error_def no_metrics_def no_portfolio_error_def)

text \<open>
  Claim C3. The risk metrics step returns the fixed error text
  \<^verbatim>\<open>Error: No portfolio data loaded. Fetch data first.\<close> exactly when the portfolio is
  empty at the call; in that case the state is returned as it was and the result does
  not depend on the environment (the benchmark is not downloaded, nothing is computed).
  With a non-empty portfolio every result differs from that text: the benchmark error,
  the joined report, the notice that no metrics were calculated, or an exception.
\<close>

theorem calculate_risk_metrics_no_portfolio:
  "(snd (calculate_risk_metrics e tickers s) = Inr no_portfolio_error) = (portfolio s = [])
   \<and> (portfolio s = [] \<longrightarrow> calculate_risk_metrics e tickers s = (s, Inr no_portfolio_error))"
proof -
  have a: "calculate_risk_metrics e tickers s = (s, Inr no_portfolio_error)" if "portfolio s = []"
    using that by (simp add: calculate_risk_metrics_def)
  have b: "snd (calculate_risk_metrics e tickers s) \<noteq> Inr no_portfolio_error"
    if ne: "portfolio s \<noteq> []"
  proof (cases "yf_download e ''SPY'' ''2y''")
    case (Raised ex)
    with ne show ?thesis
      by (simp add: calculate_risk_metrics_def other_messages_differ)
  next
    case (Frame spy)
    define tlist where "tlist = (case tickers of
                 None \<Rightarrow> map fst (portfolio s)
               | Some ts \<Rightarrow> if ts \<noteq> [] then ticker_list_of ts else map fst (portfolio s))"
    obtain s' r where L: "risk_loop (format e) (pct_change (map Close spy)) tlist s [] = (s', r)"
      by (cases "risk_loop (format e) (pct_change (map Close spy)) tlist s []")
    show ?thesis
    proof (cases r)
      case (Inl ex)
      with ne Frame L show ?thesis
        by (simp add: calculate_risk_metrics_def tlist_def [symmetric])
    next
      case (Inr rep)
      have ok: "\<forall>l \<in> set rep. entry_ok l"
        using risk_loop_entries [OF L [unfolded Inr]] by simp
      have "(if rep \<noteq> [] then join [CHR 0x0A, CHR 0x0A] rep else no_metrics) \<noteq> no_portfolio_error"
        using ok join_report_differs other_messages_differ by simp
      with ne Frame L Inr show ?thesis
        by (simp add: calculate_risk_metrics_def tlist_def [symmetric])
    qed
  qed
  from a b show ?thesis by auto
qed

text \<open>
  The reset state has an empty portfolio and gives the error text; the state with AAA
  loaded does not.
\<close>

theorem calculate_risk_metrics_no_portfolio_witness:
  "portfolio reset_state = []
   \<and> calculate_risk_metrics example_env None reset_state = (reset_state, Inr no_portfolio_error)
   \<and> portfolio loaded_state \<noteq> []
   \<and> snd (calculate_risk_metrics example_env None loaded_state) \<noteq> Inr no_portfolio_error"
  using calculate_risk_metrics_no_portfolio [of example_env None reset_state]
    calculate_risk_metrics_no_portfolio [of example_env None loaded_state]
  by (simp add: reset_state_def loaded_state_def)

subsection \<open>Sharpe ratio and beta\<close>

text \<open>
  The sample variance is never negative, so the tests \<^verbatim>\<open>std_dev > 0\<close> and
  \<^verbatim>\<open>market_variance > 0\<close> fail exactly at 0.
\<close>

lemma var_nonneg: "0 \<le> var xs"
proof (cases xs)
  case Nil
  then show ?thesis by (simp add: var_def)
next
  case (Cons a as)
  have "0 \<le> sum_list (map (\<lambda>x. (x - mean xs)\<^sup>2) xs)"
    by (rule sum_list_nonneg) auto
  moreover have "0 \<le> real (length xs) - 1"
    using Cons by simp
  ultimately show ?thesis
    unfolding var_def by (rule divide_nonneg_nonneg)
qed

lemma std_nonneg: "0 \<le> std xs"
  by (simp add: std_def var_nonneg)

text \<open>
  The stored sharpe is 0 when the standard deviation of the returns is 0, and otherwise
  \<open>sqrt 252\<close> times the mean excess return over the standard deviation. When the
  computation of beta returns, beta is 1 when the variance of the aligned benchmark
  returns is 0 and the covariance over that variance otherwise.
\<close>

lemma sharpe_ratio_of_cases:
  "sharpe_ratio_of returns =
     (if std returns = 0 then 0
      else sqrt 252 * mean (map (\<lambda>r. r - 0.02 / 252) returns) / std returns)"
  using std_nonneg [of returns] by (simp add: sharpe_ratio_of_def Let_def)

lemma beta_of_cases:
  assumes "beta_of returns spy_returns = Inr b"
    and "a = iloc_last (min (length returns) (length spy_returns)) returns"
    and "sp = iloc_last (min (length returns) (length spy_returns)) spy_returns"
  shows "(a \<noteq> [] \<and> (\<exists>c. np_cov a sp = Inr c \<and> b = (if var sp = 0 then 1 else c / var sp)))
         \<or> (a = [] \<and> b = 1)"
proof (cases "a = []")
  case True
  with assms show ?thesis
    by (simp add: beta_of_def Let_def)
next
  case False
  from assms have eq: "(case np_cov a sp of Inl ex \<Rightarrow> Inl ex
          | Inr covariance \<Rightarrow> Inr (if var sp > 0 then covariance / var sp else 1)) = Inr b"
    using False by (auto simp: beta_of_def Let_def split: sum.splits)
  then obtain c where c: "np_cov a sp = Inr c"
    by (cases "np_cov a sp") auto
  with eq have "b = (if var sp > 0 then c / var sp else 1)"
    by simp
  then have "b = (if var sp = 0 then 1 else c / var sp)"
    using var_nonneg [of sp] by auto
  with False c show ?thesis by blast
qed

text \<open>
  With no benchmark returns the window length is 0, and the slice \<^verbatim>\<open>iloc[-0:]\<close> keeps
  all the returns of the ticker while the benchmark slice is empty: the branch
  \<^verbatim>\<open>beta = 1.0\<close> for an empty window is never taken, and \<^verbatim>\<open>np.cov\<close> raises.
\<close>

lemma beta_of_empty_benchmark:
  assumes "returns \<noteq> []"
  shows "beta_of returns [] = Inl (PyException ''ValueError''
    ''all the input array dimensions except for the concatenation axis must match exactly'')"
  using assms by (simp add: beta_of_def iloc_last_def np_cov_def)

lemma length_pct_change: "length (pct_change xs) = length xs - 1"
  by (simp add: pct_change_def)

text \<open>
  Claim C5. The claim promises a stored beta of 1.0 when the aligned window is empty.
  On the portfolio with the 31 bars of AAA and a benchmark download of a single bar (no
  benchmark returns, so no overlap), the step stores nothing and ends with the
  \<^verbatim>\<open>ValueError\<close> of \<^verbatim>\<open>np.cov\<close>.
\<close>

theorem calculate_risk_metrics_empty_benchmark:
  "calculate_risk_metrics stale_benchmark_env None loaded_state =
     (loaded_state, Inl (PyException ''ValueError''
        ''all the input array dimensions except for the concatenation axis must match exactly''))"
proof -
  let ?r = "pct_change (map Close aaa_frame)"
  have len: "length ?r = 30"
    by (simp add: length_pct_change aaa_frame_def)
  then have "?r \<noteq> []" by auto
  then have "metrics_of ?r [] = Inl (PyException ''ValueError''
        ''all the input array dimensions except for the concatenation axis must match exactly'')"
    by (simp add: metrics_of_def beta_of_empty_benchmark)
  moreover have "pct_change (map Close [\<lparr>Date = 0, Close = 400\<rparr>]) = []"
    by (simp add: pct_change_def)
  ultimately show ?thesis
    using len
    by (simp add: calculate_risk_metrics_def stale_benchmark_env_def loaded_state_def
        reset_state_def example_env_def)
qed

section \<open>Properties of the forecast step\<close>

lemma length_lr_forecast_of:
  assumes "lr_forecast_of df days = Inr lr"
  shows "length lr = nat days"
proof -
  let ?X = "days_since_start df"
  obtain coef intercept where fit: "lr_fit (map real_of_int ?X) (map Close df) = (coef, intercept)"
    by (cases "lr_fit (map real_of_int ?X) (map Close df)")
  from assms fit have "lr = map (\<lambda>x. intercept + coef * real_of_int x) [last ?X + 1 .. last ?X + days]"
    by (auto simp: lr_forecast_of_def Let_def split: if_splits)
  then show ?thesis by simp
qed

lemma length_slice_from_neg:
  assumes "0 < days" and "nat days \<le> length xs"
  shows "length (slice_from (- days) xs) = nat days"
  using assms by (simp add: slice_from_def)

lemma forecast_of_Inr:
  assumes "forecast_of e ticker df days = Inr f"
  shows "\<exists>ens. ensemble_pred_of e df days = Inr ens \<and> length ens = nat days \<and> ens \<noteq> []
           \<and> df \<noteq> []
           \<and> f = \<lparr>current = Close (last df), predicted = last ens,
                   change_pct = ((last ens - Close (last df)) / Close (last df)) * 100\<rparr>"
proof (cases "ensemble_pred_of e df days")
  case (Inl ex)
  with assms show ?thesis by (simp add: forecast_of_def)
next
  case (Inr ens)
  with assms show ?thesis
    by (auto simp: forecast_of_def plot_forecast_def Let_def split: option.splits if_splits)
qed

text \<open>
  Claim C6. For a ticker in the portfolio whose forecast step returns its summary, where
  \<open>days\<close> is the requested horizon (the configured default when none is given) and
  the seasonal model gave a forecast frame of at least \<open>days\<close> rows: the horizon is
  positive, the seasonal projection (the last \<open>days\<close> values of the frame) and the
  linear-trend projection both have \<open>days\<close> values, the blended projection is
  elementwise 0.7 times the first plus 0.3 times the second, and the entry stored under
  the ticker holds the last close as current, the last blended value as predicted, and
  100 times their difference over the last close as change\_pct.
\<close>

theorem ensemble_forecast_blend:
  assumes "map_of (portfolio s) ticker = Some df"
    and "prophet_predict e df days = Inr yhat"
    and "nat days \<le> length yhat"
    and "ensemble_forecast e ticker requested s = (s', Inr msg)"
    and "days = (case requested of None \<Rightarrow> DEFAULT_FORECAST_DAYS e | Some d \<Rightarrow> d)"
  shows "\<exists>lr ens.
           lr_forecast_of df days = Inr lr
         \<and> 0 < days
         \<and> length (slice_from (- days) yhat) = nat days
         \<and> length lr = nat days
         \<and> ens = map (\<lambda>(p, l). 0.7 * p + 0.3 * l) (zip (slice_from (- days) yhat) lr)
         \<and> ensemble_pred_of e df days = Inr ens
         \<and> map_of (forecasts s') ticker =
             Some \<lparr>current = Close (last df), predicted = last ens,
                   change_pct = 100 * (last ens - Close (last df)) / Close (last df)\<rparr>"
proof -
  from assms(1,4,5) obtain f where f: "forecast_of e ticker df days = Inr f"
    and s': "s' = s\<lparr>forecasts := AList.update ticker f (forecasts s)\<rparr>"
    by (cases "forecast_of e ticker df days") (auto simp: ensemble_forecast_def)
  from forecast_of_Inr [OF f] obtain ens where
    ens: "ensemble_pred_of e df days = Inr ens" and len: "length ens = nat days"
    and ne: "ens \<noteq> []"
    and fv: "f = \<lparr>current = Close (last df), predicted = last ens,
                   change_pct = ((last ens - Close (last df)) / Close (last df)) * 100\<rparr>"
    by blast
  from len ne have days: "0 < days"
    by (cases "0 < days") auto
  from ens assms(2) obtain lr where lr: "lr_forecast_of df days = Inr lr"
    and blend: "np_blend (slice_from (- days) yhat) lr = Inr ens"
    by (cases "lr_forecast_of df days") (auto simp: ensemble_pred_of_def)
  have l1: "length lr = nat days"
    by (rule length_lr_forecast_of [OF lr])
  have l2: "length (slice_from (- days) yhat) = nat days"
    by (rule length_slice_from_neg [OF days assms(3)])
  from blend l1 l2 have e2: "ens = map (\<lambda>(p, l). 0.7 * p + 0.3 * l) (zip (slice_from (- days) yhat) lr)"
    by (simp add: np_blend_def)
  have "map_of (forecasts s') ticker = Some f"
    by (simp add: s' update_conv')
  with fv have st: "map_of (forecasts s') ticker =
             Some \<lparr>current = Close (last df), predicted = last ens,
                   change_pct = 100 * (last ens - Close (last df)) / Close (last df)\<rparr>"
    by (simp add: algebra_simps)
  from lr days l2 l1 e2 ens st show ?thesis by blast
qed

text \<open>
  Three bars of CCC with closes 100, 102, 104: the trend line continues with 106 and 108,
  the example seasonal model projects 110 twice, and the blend is 108.8 and 109.4.
\<close>

lemma lr_example: "lr_forecast_of ccc_frame 2 = Inr [106, 108]"
  by (simp add: lr_forecast_of_def days_since_start_def ccc_frame_def lr_fit_def mean_def Let_def
      upto_rec_numeral power2_eq_square)

lemma prophet_example:
  "prophet_predict example_env ccc_frame 2 = Inr [100, 102, 104, 110, 110]"
  by (simp add: example_env_def ccc_frame_def numeral_2_eq_2)

lemma ensemble_example:
  "ensemble_pred_of example_env ccc_frame 2 = Inr [544 / 5, 547 / 5]"
  by (simp add: ensemble_pred_of_def prophet_example lr_example np_blend_def slice_from_def)

lemma forecast_example:
  "forecast_of example_env ticker ccc_frame 2 =
     Inr \<lparr>current = 104, predicted = 547 / 5, change_pct = 135 / 26\<rparr>"
proof -
  have "ccc_frame \<noteq> []" and "Close (last ccc_frame) = 104"
    by (simp_all add: ccc_frame_def)
  moreover have "savefig example_env (plot_path example_env ticker) = None"
    by (simp add: example_env_def)
  ultimately show ?thesis
    by (simp add: forecast_of_def ensemble_example plot_forecast_def Let_def)
qed

theorem ensemble_forecast_blend_witness:
  "map_of (portfolio small_state) ''CCC'' = Some ccc_frame
   \<and> prophet_predict example_env ccc_frame 2 = Inr [100, 102, 104, 110, 110]
   \<and> nat 2 \<le> length [100, 102, 104, 110, 110 :: real]
   \<and> snd (ensemble_forecast example_env ''CCC'' (Some 2) small_state)
       = Inr (forecast_summary example_format ''CCC''
                \<lparr>current = 104, predicted = 547 / 5, change_pct = 135 / 26\<rparr>)
   \<and> lr_forecast_of ccc_frame 2 = Inr [106, 108]
   \<and> ensemble_pred_of example_env ccc_frame 2 = Inr [544 / 5, 547 / 5]
   \<and> map_of (forecasts (fst (ensemble_forecast example_env ''CCC'' (Some 2) small_state))) ''CCC''
       = Some \<lparr>current = 104, predicted = 547 / 5, change_pct = 135 / 26\<rparr>"
proof -
  have p: "map_of (portfolio small_state) ''CCC'' = Some ccc_frame"
    by (simp add: small_state_def reset_state_def)
  have n: "nat 2 \<le> length [100, 102, 104, 110, 110 :: real]"
    by simp
  have r2: "snd (ensemble_forecast example_env ''CCC'' (Some 2) small_state) =
              Inr (forecast_summary example_format ''CCC''
                \<lparr>current = 104, predicted = 547 / 5, change_pct = 135 / 26\<rparr>)"
    by (simp add: ensemble_forecast_def p forecast_example) (simp add: example_env_def)
  have r: "ensemble_forecast example_env ''CCC'' (Some 2) small_state =
             (fst (ensemble_forecast example_env ''CCC'' (Some 2) small_state),
              Inr (forecast_summary example_format ''CCC''
                \<lparr>current = 104, predicted = 547 / 5, change_pct = 135 / 26\<rparr>))"
    by (simp add: prod_eq_iff r2)
  have c: "Close (last ccc_frame) = 104"
    by (simp add: ccc_frame_def)
  show ?thesis
    using ensemble_forecast_blend [OF p prophet_example n r] p prophet_example r2
    by (simp add: slice_from_def lr_example c)
qed

section \<open>The keys of the shared state\<close>

text \<open>
  Every tool keeps the invariant \<open>keys_inv\<close>: the fetch step stores upper-cased keys
  only, the risk and forecast steps store under keys of the portfolio only, and nothing
  removes a key of the portfolio.
\<close>

lemma to_upper_not_lower: "to_upper c \<notin> set lowercase"
  by (simp add: to_upper_def lowercase_def uppercase_def)

lemma no_lower_upper: "no_lower (upper s)"
  by (simp add: no_lower_def upper_def to_upper_not_lower)

lemma py_in_update: "py_in k (AList.update k' v d) = (k = k' \<or> py_in k d)"
  by (simp add: py_in_def update_conv')

lemma fetch_one_other:
  "risk_metrics (fst (fetch_one e p t s)) = risk_metrics s"
  "forecasts (fst (fetch_one e p t s)) = forecasts s"
  "sentiment (fst (fetch_one e p t s)) = sentiment s"
  by (simp_all add: fetch_one_def split: download.splits)

lemma fetch_one_portfolio:
  "py_in k (portfolio (fst (fetch_one e p t s))) \<Longrightarrow> k = t \<or> py_in k (portfolio s)"
  "py_in k (portfolio s) \<Longrightarrow> py_in k (portfolio (fst (fetch_one e p t s)))"
  by (auto simp: fetch_one_def py_in_update split: download.splits if_splits)

lemma fetch_one_inv:
  assumes "keys_inv s" and "no_lower t"
  shows "keys_inv (fst (fetch_one e p t s))"
  using assms fetch_one_portfolio(1) [where e = e and p = p and t = t and s = s]
    fetch_one_portfolio(2) [where e = e and p = p and t = t and s = s]
  by (auto simp: keys_inv_def fetch_one_other)

lemma fetch_loop_inv:
  "keys_inv s \<Longrightarrow> \<forall>t \<in> set ts. no_lower t \<Longrightarrow> keys_inv (fst (fetch_loop e p ts s rs))"
proof (induction ts arbitrary: s rs)
  case Nil
  then show ?case by simp
next
  case (Cons t ts)
  obtain s' line where f: "fetch_one e p t s = (s', line)"
    by (cases "fetch_one e p t s")
  with Cons.prems have "keys_inv s'"
    using fetch_one_inv [where s = s and t = t and e = e and p = p] by simp
  with Cons f show ?case by simp
qed

lemma fetch_portfolio_data_inv:
  assumes "keys_inv s"
  shows "keys_inv (fst (fetch_portfolio_data e tickers period s))"
proof -
  have "\<forall>t \<in> set (ticker_list_of tickers). no_lower t"
    by (simp add: ticker_list_of_def no_lower_upper)
  with assms have "keys_inv (fst (fetch_loop e (period_of e period) (ticker_list_of tickers) s []))"
    by (rule fetch_loop_inv)
  then show ?thesis
    by (simp add: fetch_portfolio_data_def case_prod_beta)
qed

lemma risk_loop_inv:
  "keys_inv s \<Longrightarrow> keys_inv (fst (risk_loop fm spy ts s rep))"
proof (induction ts arbitrary: s rep)
  case Nil
  then show ?case by simp
next
  case (Cons t ts)
  show ?case
  proof (cases "map_of (portfolio s) t")
    case None
    with Cons show ?thesis by simp
  next
    case (Some df)
    then have t: "py_in t (portfolio s)" by (simp add: py_in_def)
    have upd: "keys_inv (s\<lparr>risk_metrics := AList.update t m (risk_metrics s)\<rparr>)" for m
      using Cons.prems t by (auto simp: keys_inv_def py_in_update)
    show ?thesis
      using Some Cons.prems Cons.IH upd
      by (simp add: Let_def split: sum.splits)
  qed
qed

lemma calculate_risk_metrics_inv:
  assumes "keys_inv s"
  shows "keys_inv (fst (calculate_risk_metrics e tickers s))"
proof -
  have "keys_inv (fst (risk_loop fm spy ts s []))" for fm spy ts
    using assms by (rule risk_loop_inv)
  then show ?thesis
    using assms
    by (simp add: calculate_risk_metrics_def Let_def case_prod_beta
        split: download.splits sum.splits)
qed

lemma ensemble_forecast_inv:
  assumes "keys_inv s"
  shows "keys_inv (fst (ensemble_forecast e ticker days s))"
proof (cases "map_of (portfolio s) ticker")
  case None
  with assms show ?thesis
    by (simp add: ensemble_forecast_def Let_def)
next
  case (Some df)
  then have t: "py_in ticker (portfolio s)" by (simp add: py_in_def)
  have upd: "keys_inv (s\<lparr>forecasts := AList.update ticker f (forecasts s)\<rparr>)" for f
    using assms t by (auto simp: keys_inv_def py_in_update)
  show ?thesis
    using Some assms upd
    by (simp add: ensemble_forecast_def Let_def split: sum.splits)
qed

lemma analyze_sentiment_inv:
  assumes "keys_inv s"
  shows "keys_inv (fst (analyze_sentiment e u ticker s))"
  using assms by (simp add: analyze_sentiment_def keys_inv_def Let_def)

lemma invoke_tool_inv:
  assumes "keys_inv (data w)"
  shows "keys_inv (data (fst (invoke_tool e c w)))"
proof (cases c)
  case (Fetch_call tickers period)
  then show ?thesis
    using fetch_portfolio_data_inv [OF assms, of e tickers period]
    by (simp add: invoke_tool_def case_prod_beta)
next
  case (Risk_call tickers)
  then show ?thesis
    using calculate_risk_metrics_inv [OF assms, of e tickers]
    by (simp add: invoke_tool_def case_prod_beta)
next
  case (Forecast_call ticker days)
  then show ?thesis
    using ensemble_forecast_inv [OF assms, of e ticker days]
    by (simp add: invoke_tool_def case_prod_beta)
next
  case (Sentiment_call ticker)
  then show ?thesis
    using analyze_sentiment_inv [OF assms, of e "random_uniform e (draws w)" ticker]
    by (simp add: invoke_tool_def case_prod_beta)
next
  case Compare_call
  then show ?thesis
    using assms by (simp add: invoke_tool_def)
qed

lemma keys_inv_reset: "keys_inv reset_state"
  by (simp add: keys_inv_def reset_state_def py_in_def)

lemma invoke_all_inv:
  "keys_inv (data w) \<Longrightarrow> keys_inv (data (invoke_all e calls w))"
  unfolding invoke_all_def
  by (induction calls arbitrary: w) (simp_all add: invoke_tool_inv)

text \<open>
  After any sequence of invocations from the reset state, the keys of the risk metrics
  and of the forecasts are keys of the portfolio.
\<close>

lemma invoke_all_initial_inv: "keys_inv (data (invoke_all e calls initial_world))"
  by (rule invoke_all_inv) (simp add: initial_world_def keys_inv_reset)

text \<open>
  Claim C2. The claim holds for the risk metrics and the forecasts (lemma
  \<open>invoke_all_initial_inv\<close>), but the sentiment step stores under the ticker it is given
  without looking the ticker up in the portfolio. In the example environment the fetch
  of BBB fails, and the sentiment step called after it stores an entry for BBB: a key
  of the sentiment mapping that is no key of the portfolio.
\<close>

theorem sentiment_key_outside_portfolio:
  "py_in ''BBB'' (sentiment (data (invoke_all example_env
        [Fetch_call ''BBB'' None, Sentiment_call ''BBB''] initial_world)))
   \<and> \<not> py_in ''BBB'' (portfolio (data (invoke_all example_env
        [Fetch_call ''BBB'' None, Sentiment_call ''BBB''] initial_world)))"
proof -
  have l: "ticker_list_of ''BBB'' = [''BBB'']"
    by (simp add: ticker_list_of_def upper_def strip_def to_upper_def whitespace_def
        lowercase_def uppercase_def)
  have f: "fetch_portfolio_data example_env ''BBB'' None reset_state
           = (reset_state, cross_mark @ '' BBB: No data available'')"
    by (simp add: fetch_portfolio_data_def l fetch_one_def period_of_def)
       (simp add: example_env_def example_download_def)
  show ?thesis
    by (simp add: invoke_all_def invoke_tool_def initial_world_def f analyze_sentiment_def
        py_in_def Let_def)
       (simp add: example_env_def reset_state_def)
qed

section \<open>Properties of the Manual mode\<close>

text \<open>
  The tools leave the dictionary imported by agents.py alone once a reset has separated
  it from the one they work on, and every invocation is recorded.
\<close>

lemma invoke_tool_imported: "imported (fst (invoke_tool e c w)) = imported w"
  by (cases c; simp add: invoke_tool_def case_prod_beta)

lemma invoke_tool_log: "tool_log (fst (invoke_tool e c w)) = tool_log w @ [c]"
  by (cases c; simp add: invoke_tool_def case_prod_beta)

lemma run_steps_imported: "imported (fst (run_steps e cs w slog)) = imported w"
proof (induction cs arbitrary: w slog)
  case Nil
  then show ?case by simp
next
  case (Cons step cs)
  obtain name call where step: "step = (name, call)" by (cases step)
  obtain w1 r where i: "invoke_tool e call w = (w1, r)" by (cases "invoke_tool e call w")
  then have "imported w1 = imported w"
    using invoke_tool_imported [of e call w] by simp
  with Cons step i show ?case
    by (simp split: sum.splits)
qed

lemma reset_world: "do_reset_state w = w\<lparr>data := reset_state, imported := Some (agents_DATA_STATE w)\<rparr>"
  by (simp add: do_reset_state_def)

lemma run_steps_executes:
  "run_steps e cs w slog = (w', slog', None) \<Longrightarrow> \<exists>l. slog' = slog @ l \<and> executes e cs w l w'"
proof (induction cs arbitrary: w slog)
  case Nil
  then show ?case by simp
next
  case (Cons step cs)
  obtain name call where step: "step = (name, call)" by (cases step)
  obtain w1 r where inv: "invoke_tool e call w = (w1, r)" by (cases "invoke_tool e call w")
  show ?case
  proof (cases r)
    case (Inl ex)
    with Cons.prems step inv show ?thesis by simp
  next
    case (Inr res)
    with Cons.prems step inv have "run_steps e cs w1 (slog @ [(name, res)]) = (w', slog', None)"
      by simp
    from Cons.IH [OF this] obtain l where l: "slog' = (slog @ [(name, res)]) @ l"
      and ex: "executes e cs w1 l w'" by blast
    from l have "slog' = slog @ ((name, res) # l)" by simp
    moreover have "executes e (step # cs) w ((name, res) # l) w'"
      using step inv Inr ex by simp
    ultimately show ?thesis by blast
  qed
qed

lemma executes_names: "executes e cs w l w' \<Longrightarrow> map fst l = map fst cs"
proof (induction cs arbitrary: w l)
  case Nil
  then show ?case by simp
next
  case (Cons step cs)
  then show ?case
    by (cases step; cases l) auto
qed

lemma executes_last_compare:
  "executes e (cs @ [(name, Compare_call)]) w l w'
     \<Longrightarrow> l \<noteq> [] \<and> last l = (name, compare_portfolio (format e) (data w'))"
proof (induction cs arbitrary: w l)
  case Nil
  then show ?case
    by (cases l) (auto simp: invoke_tool_def split: list.splits)
next
  case (Cons step cs)
  obtain n c where step: "step = (n, c)" by (cases step)
  from Cons.prems step obtain r l' where l: "l = (n, r) # l'"
    and ex: "executes e (cs @ [(name, Compare_call)]) (fst (invoke_tool e c w)) l' w'"
    by (cases l) auto
  from Cons.IH [OF ex] show ?case
    by (simp add: l)
qed

text \<open>
  Claim C7. A Manual-mode run that returns its result has executed, from the reset
  state and in this order, each in the world the step before left: Fetch once on the
  whole input, Risk once on the whole input, Forecast once for every comma-separated
  piece of the input (stripped) in input order, then, only if the caller's flag and the
  configuration both enable sentiment, Sentiment once per piece in input order, then
  Ranking once. The step log holds the name and the result of every step in call order,
  the final response is the result of the last step, which is the ranking report on the
  final state. The \<^verbatim>\<open>data_state\<close> of the result is the dictionary that agents.py
  imported, as it was before the run: the reset at the start of the run rebinds the
  global of tools.py, so the tools of the run never write to it. (A step that raises
  ends the run without a result.)
\<close>

theorem run_manual_sequence:
  assumes "run_manual e tickers forecast_days include_sentiment w = (w', Inr res)"
  shows "executes e
           ([(''Fetching Data'', Fetch_call tickers None),
             (''Risk Analysis'', Risk_call (Some tickers))]
            @ map (\<lambda>t. (''Forecasting '' @ strip t, Forecast_call (strip t) (Some forecast_days)))
                (split_on CHR '','' tickers)
            @ (if include_sentiment \<and> ENABLE_SENTIMENT e
               then map (\<lambda>t. (''Sentiment '' @ strip t, Sentiment_call (strip t)))
                      (split_on CHR '','' tickers)
               else [])
            @ [(''Portfolio Ranking'', Compare_call)])
           (w\<lparr>data := reset_state, imported := Some (agents_DATA_STATE w)\<rparr>) (steps res) w'
         \<and> final_response res = snd (last (steps res))
         \<and> last (steps res) = (''Portfolio Ranking'', compare_portfolio (format e) (data w'))
         \<and> data_state res = Some (agents_DATA_STATE w)"
proof -
  let ?cs = "manual_steps e tickers forecast_days include_sentiment"
  obtain w1 slog exo where R: "run_steps e ?cs (w\<lparr>data := reset_state, imported := Some (agents_DATA_STATE w)\<rparr>) [] = (w1, slog, exo)"
    by (cases "run_steps e ?cs (w\<lparr>data := reset_state, imported := Some (agents_DATA_STATE w)\<rparr>) []")
  with assms have exo: "exo = None" and w1: "w1 = w'"
    and res: "res = \<lparr>steps = slog, final_response = snd (last slog),
                   data_state = Some (agents_DATA_STATE w')\<rparr>"
    by (auto simp: run_manual_def reset_world split: option.splits)
  have "imported w1 = Some (agents_DATA_STATE w)"
    using run_steps_imported [of e ?cs "w\<lparr>data := reset_state, imported := Some (agents_DATA_STATE w)\<rparr>" "[]"] R by simp
  with w1 have stale: "agents_DATA_STATE w' = agents_DATA_STATE w"
    by (simp add: agents_DATA_STATE_def)
  from run_steps_executes [OF R [unfolded exo]] w1
  have ex: "executes e ?cs (w\<lparr>data := reset_state, imported := Some (agents_DATA_STATE w)\<rparr>) slog w'" by simp
  have split: "?cs = ([(''Fetching Data'', Fetch_call tickers None),
             (''Risk Analysis'', Risk_call (Some tickers))]
            @ map (\<lambda>t. (''Forecasting '' @ strip t, Forecast_call (strip t) (Some forecast_days)))
                (split_on CHR '','' tickers)
            @ (if include_sentiment \<and> ENABLE_SENTIMENT e
               then map (\<lambda>t. (''Sentiment '' @ strip t, Sentiment_call (strip t)))
                      (split_on CHR '','' tickers)
               else [])) @ [(''Portfolio Ranking'', Compare_call)]"
    by (simp add: manual_steps_def)
  from executes_last_compare [OF ex [unfolded split]]
  have lst: "last slog = (''Portfolio Ranking'', compare_portfolio (format e) (data w'))"
    by simp
  from ex have "executes e
           ([(''Fetching Data'', Fetch_call tickers None),
             (''Risk Analysis'', Risk_call (Some tickers))]
            @ map (\<lambda>t. (''Forecasting '' @ strip t, Forecast_call (strip t) (Some forecast_days)))
                (split_on CHR '','' tickers)
            @ (if include_sentiment \<and> ENABLE_SENTIMENT e
               then map (\<lambda>t. (''Sentiment '' @ strip t, Sentiment_call (strip t)))
                      (split_on CHR '','' tickers)
               else [])
            @ [(''Portfolio Ranking'', Compare_call)])
           (w\<lparr>data := reset_state, imported := Some (agents_DATA_STATE w)\<rparr>) slog w'"
    by (simp add: manual_steps_def)
  with lst res stale show ?thesis by simp
qed

subsection \<open>An example run\<close>

text \<open>
  The input \<^verbatim>\<open>CCC,BBB\<close> with a horizon of two days in the example environment: CCC
  is fetched, has too few returns for the risk metrics and gets a forecast; BBB is not
  fetched; both get a sentiment entry; the ranking has nothing to rank.
\<close>

lemmas example_defs =
  example_env_def example_download_def example_format_def ccc_frame_def spy_frame_def
  reset_state_def initial_world_def

lemmas string_defs =
  ticker_list_of_def upper_def strip_def to_upper_def whitespace_def lowercase_def uppercase_def

lemma fetch_ex:
  "fetch_portfolio_data example_env ''CCC,BBB'' None reset_state =
     (small_state, check_mark @ '' CCC: 3 data points'' @ [CHR 0x0A]
                   @ cross_mark @ '' BBB: No data available'')"
  by (simp add: fetch_portfolio_data_def string_defs fetch_one_def period_of_def small_state_def
      example_defs show_nat.simps)

lemma risk_ex:
  "calculate_risk_metrics example_env (Some ''CCC,BBB'') small_state =
     (small_state, Inr (warning_sign @ ''  CCC: Insufficient data''))"
  by (simp add: calculate_risk_metrics_def string_defs small_state_def pct_change_def
      example_defs Let_def)

lemma forecast_ex:
  "ensemble_forecast example_env ''CCC'' (Some 2) small_state =
     (small_state\<lparr>forecasts :=
        [(''CCC'', \<lparr>current = 104, predicted = 547 / 5, change_pct = 135 / 26\<rparr>)]\<rparr>,
      Inr (forecast_summary example_format ''CCC''
             \<lparr>current = 104, predicted = 547 / 5, change_pct = 135 / 26\<rparr>))"
proof -
  have p: "map_of (portfolio small_state) ''CCC'' = Some ccc_frame"
    by (simp add: small_state_def reset_state_def)
  have f: "forecasts small_state = []"
    by (simp add: small_state_def reset_state_def)
  show ?thesis
    by (simp add: ensemble_forecast_def p f forecast_example) (simp add: example_env_def)
qed

lemma ensemble_forecast_not_loaded:
  "map_of (portfolio s) ticker = None \<Longrightarrow>
     ensemble_forecast e ticker days s = (s, Inr (not_loaded ticker))"
  by (simp add: ensemble_forecast_def)

lemma run_ex:
  "run_manual example_env ''CCC,BBB'' 2 True initial_world =
     (\<lparr>data = small_state\<lparr>forecasts :=
               [(''CCC'', \<lparr>current = 104, predicted = 547 / 5, change_pct = 135 / 26\<rparr>)],
             sentiment := [(''CCC'', \<lparr>score = 1 / 4, label = POSITIVE\<rparr>),
                           (''BBB'', \<lparr>score = 1 / 4, label = POSITIVE\<rparr>)]\<rparr>,
       imported = Some reset_state, draws = 2, llm_calls = 0, supersteps = 0,
       tool_log = [Fetch_call ''CCC,BBB'' None, Risk_call (Some ''CCC,BBB''),
                   Forecast_call ''CCC'' (Some 2), Forecast_call ''BBB'' (Some 2),
                   Sentiment_call ''CCC'', Sentiment_call ''BBB'', Compare_call]\<rparr>,
      Inr \<lparr>steps =
             [(''Fetching Data'', check_mark @ '' CCC: 3 data points'' @ [CHR 0x0A]
                   @ cross_mark @ '' BBB: No data available''),
              (''Risk Analysis'', warning_sign @ ''  CCC: Insufficient data''),
              (''Forecasting CCC'', forecast_summary example_format ''CCC''
                  \<lparr>current = 104, predicted = 547 / 5, change_pct = 135 / 26\<rparr>),
              (''Forecasting BBB'', not_loaded ''BBB''),
              (''Sentiment CCC'', newspaper @ '' CCC Sentiment: POSITIVE (0.25)''),
              (''Sentiment BBB'', newspaper @ '' BBB Sentiment: POSITIVE (0.25)''),
              (''Portfolio Ranking'', cross_mark @ '' Run risk analysis first.'')],
            final_response = cross_mark @ '' Run risk analysis first.'',
            data_state = Some reset_state\<rparr>)"
proof -
  have st: "strip ''CCC'' = ''CCC''" "strip ''BBB'' = ''BBB''"
    by (simp_all add: strip_def whitespace_def)
  have en: "ENABLE_SENTIMENT example_env" "random_uniform example_env n = 1 / 4"
    "format example_env = example_format" for n
    by (simp_all add: example_env_def)
  have nl: "map_of (portfolio small_state) ''BBB'' = None" "risk_metrics small_state = []"
    "sentiment small_state = []"
    by (simp_all add: small_state_def reset_state_def)
  show ?thesis
    by (simp add: run_manual_def manual_steps_def st en invoke_tool_def initial_world_def
        do_reset_state_def agents_DATA_STATE_def
        fetch_ex risk_ex forecast_ex ensemble_forecast_not_loaded nl analyze_sentiment_def
        compare_portfolio_def label_text_def example_format_def example_fmt_2f_def Let_def)
qed

text \<open>
  The example run, started in the world after the imports, returns, and its seven steps
  are the fixed sequence; the returned \<^verbatim>\<open>data_state\<close> is the empty imported
  dictionary, while the state of the tools holds the frame of CCC.
\<close>

theorem run_manual_sequence_witness:
  "executes example_env
      [(''Fetching Data'', Fetch_call ''CCC,BBB'' None),
       (''Risk Analysis'', Risk_call (Some ''CCC,BBB'')),
       (''Forecasting CCC'', Forecast_call ''CCC'' (Some 2)),
       (''Forecasting BBB'', Forecast_call ''BBB'' (Some 2)),
       (''Sentiment CCC'', Sentiment_call ''CCC''),
       (''Sentiment BBB'', Sentiment_call ''BBB''),
       (''Portfolio Ranking'', Compare_call)]
      (initial_world\<lparr>imported := Some reset_state\<rparr>)
      [(''Fetching Data'', check_mark @ '' CCC: 3 data points'' @ [CHR 0x0A]
                   @ cross_mark @ '' BBB: No data available''),
       (''Risk Analysis'', warning_sign @ ''  CCC: Insufficient data''),
       (''Forecasting CCC'', forecast_summary example_format ''CCC''
                  \<lparr>current = 104, predicted = 547 / 5, change_pct = 135 / 26\<rparr>),
       (''Forecasting BBB'', not_loaded ''BBB''),
       (''Sentiment CCC'', newspaper @ '' CCC Sentiment: POSITIVE (0.25)''),
       (''Sentiment BBB'', newspaper @ '' BBB Sentiment: POSITIVE (0.25)''),
       (''Portfolio Ranking'', cross_mark @ '' Run risk analysis first.'')]
      (fst (run_manual example_env ''CCC,BBB'' 2 True initial_world))
   \<and> (case snd (run_manual example_env ''CCC,BBB'' 2 True initial_world) of
         Inl ex \<Rightarrow> False
       | Inr res \<Rightarrow>
           final_response res = cross_mark @ '' Run risk analysis first.''
           \<and> data_state res = Some reset_state)
   \<and> portfolio (data (fst (run_manual example_env ''CCC,BBB'' 2 True initial_world)))
       = [(''CCC'', ccc_frame)]"
proof -
  have st: "strip ''CCC'' = ''CCC''" "strip ''BBB'' = ''BBB''"
    by (simp_all add: strip_def whitespace_def)
  have en: "ENABLE_SENTIMENT example_env"
    by (simp add: example_env_def)
  have iw: "initial_world\<lparr>data := reset_state, imported := Some reset_state\<rparr>
            = initial_world\<lparr>imported := Some reset_state\<rparr>"
    by (simp add: initial_world_def)
  have ag: "agents_DATA_STATE initial_world = reset_state"
    by (simp add: initial_world_def agents_DATA_STATE_def)
  have pf: "portfolio small_state = [(''CCC'', ccc_frame)]"
    by (simp add: small_state_def reset_state_def)
  have cp: "compare_portfolio fm (small_state\<lparr>forecasts := fs, sentiment := ss\<rparr>)
            = cross_mark @ '' Run risk analysis first.''" for fm fs ss
    by (simp add: compare_portfolio_def small_state_def reset_state_def)
  show ?thesis
    using run_manual_sequence [OF run_ex]
    by (simp add: run_ex st en iw ag pf cp del: executes.simps)
qed

section \<open>Lower-case tickers in the Manual mode\<close>


lemma set_dropWhile_keep: "x \<in> set xs \<Longrightarrow> \<not> P x \<Longrightarrow> x \<in> set (dropWhile P xs)"
  by (induction xs) auto

lemma set_strip_keep:
  assumes "c \<in> set t" and "c \<notin> set whitespace"
  shows "c \<in> set (strip t)"
proof -
  have "c \<in> set (dropWhile (\<lambda>c. c \<in> set whitespace) t)"
    using assms by (rule set_dropWhile_keep)
  then have "c \<in> set (rev (dropWhile (\<lambda>c. c \<in> set whitespace) t))"
    by simp
  then have "c \<in> set (dropWhile (\<lambda>c. c \<in> set whitespace)
                      (rev (dropWhile (\<lambda>c. c \<in> set whitespace) t)))"
    using assms(2) by (rule set_dropWhile_keep)
  then show ?thesis
    by (simp add: strip_def)
qed

lemma lowercase_not_whitespace: "c \<in> set lowercase \<Longrightarrow> c \<notin> set whitespace"
  by (auto simp: lowercase_def whitespace_def)

lemma forecast_lowercase_not_loaded:
  assumes "keys_inv (data w)" and "\<not> no_lower k"
  shows "invoke_tool e (Forecast_call k d) w =
           (w\<lparr>tool_log := tool_log w @ [Forecast_call k d]\<rparr>, Inr (not_loaded k))"
proof -
  have "map_of (portfolio (data w)) k = None"
    using assms by (auto simp: keys_inv_def py_in_def)
  then show ?thesis
    by (simp add: invoke_tool_def ensemble_forecast_not_loaded)
qed

lemma run_steps_lowercase:
  assumes "\<not> no_lower k"
  shows "keys_inv (data w)
    \<Longrightarrow> \<forall>(n, c) \<in> set cs. n = ''Forecasting '' @ k \<longrightarrow> (\<exists>d. c = Forecast_call k d)
    \<Longrightarrow> \<forall>(n, r) \<in> set slog. n = ''Forecasting '' @ k \<longrightarrow> r = not_loaded k
    \<Longrightarrow> keys_inv (data (fst (run_steps e cs w slog)))
        \<and> (\<forall>(n, r) \<in> set (fst (snd (run_steps e cs w slog))).
              n = ''Forecasting '' @ k \<longrightarrow> r = not_loaded k)"
proof (induction cs arbitrary: w slog)
  case Nil
  then show ?case by simp
next
  case (Cons step cs)
  obtain name call where step: "step = (name, call)" by (cases step)
  obtain w1 r where inv: "invoke_tool e call w = (w1, r)" by (cases "invoke_tool e call w")
  have k1: "keys_inv (data w1)"
    using invoke_tool_inv [OF Cons.prems(1), of e call] inv by simp
  show ?case
  proof (cases r)
    case (Inl ex)
    with step inv k1 Cons.prems(3) show ?thesis by simp
  next
    case (Inr res)
    have "res = not_loaded k" if "name = ''Forecasting '' @ k"
    proof -
      from that Cons.prems(2) step obtain d where "call = Forecast_call k d" by auto
      with inv Inr forecast_lowercase_not_loaded [OF Cons.prems(1) assms, of e d]
      show ?thesis by simp
    qed
    then have l: "\<forall>(n, r) \<in> set (slog @ [(name, res)]). n = ''Forecasting '' @ k \<longrightarrow> r = not_loaded k"
      using Cons.prems(3) by auto
    have c: "\<forall>(n, c) \<in> set cs. n = ''Forecasting '' @ k \<longrightarrow> (\<exists>d. c = Forecast_call k d)"
      using Cons.prems(2) by simp
    from Cons.IH [OF k1 c l] step inv Inr show ?thesis by simp
  qed
qed

lemma manual_steps_named:
  "\<forall>(n, c) \<in> set (manual_steps e tickers d incl).
     n = ''Forecasting '' @ k \<longrightarrow> (\<exists>d'. c = Forecast_call k d')"
  by (auto simp: manual_steps_def)

lemma manual_steps_has_forecast:
  "t \<in> set (split_on CHR '','' tickers)
     \<Longrightarrow> ''Forecasting '' @ strip t \<in> set (map fst (manual_steps e tickers d incl))"
  by (auto simp: manual_steps_def image_iff)

text \<open>
  Claim C10. Let a comma-separated piece of the input of a Manual-mode run contain a
  lower-case letter. The fetch step stores upper-cased keys only, so the stripped piece,
  which is what the run passes to the forecast step, is no key of the portfolio: in the
  log of the steps run from the reset state (whatever dictionary agents.py holds),
  complete or cut short by an exception, every step named after the forecast of that
  piece has the result \<^verbatim>\<open>Error: ... not loaded.\<close>, and no forecast is stored under it;
  when the run returns, its step log has that entry.
\<close>

theorem manual_lowercase_ticker_not_loaded:
  assumes "t \<in> set (split_on CHR '','' tickers)"
    and "c \<in> set t" and "c \<in> set lowercase"
  shows "(\<forall>(n, r) \<in> set (fst (snd (run_steps e (manual_steps e tickers d incl)
                                        (w\<lparr>data := reset_state, imported := i\<rparr>) []))).
            n = ''Forecasting '' @ strip t \<longrightarrow> r = not_loaded (strip t))
       \<and> \<not> py_in (strip t)
             (forecasts (data (fst (run_steps e (manual_steps e tickers d incl)
                                     (w\<lparr>data := reset_state, imported := i\<rparr>) []))))
       \<and> (\<forall>w' res. run_manual e tickers d incl w = (w', Inr res) \<longrightarrow>
             (''Forecasting '' @ strip t, not_loaded (strip t)) \<in> set (steps res)
             \<and> \<not> py_in (strip t) (forecasts (data w')))"
proof -
  let ?k = "strip t"
  let ?cs = "manual_steps e tickers d incl"
  have "c \<in> set ?k"
    using assms(2,3) by (simp add: set_strip_keep lowercase_not_whitespace)
  with assms(3) have low: "\<not> no_lower ?k"
    by (auto simp: no_lower_def)
  have gen: "(\<forall>(n, r) \<in> set (fst (snd (run_steps e ?cs (w\<lparr>data := reset_state, imported := j\<rparr>) []))).
                n = ''Forecasting '' @ ?k \<longrightarrow> r = not_loaded ?k)
             \<and> \<not> py_in ?k (forecasts (data (fst (run_steps e ?cs
                                                 (w\<lparr>data := reset_state, imported := j\<rparr>) []))))"
    for j
  proof -
    let ?R = "run_steps e ?cs (w\<lparr>data := reset_state, imported := j\<rparr>) []"
    have inv0: "keys_inv (data (w\<lparr>data := reset_state, imported := j\<rparr>))"
      by (simp add: keys_inv_reset)
    have both: "keys_inv (data (fst ?R))
        \<and> (\<forall>(n, r) \<in> set (fst (snd ?R)). n = ''Forecasting '' @ ?k \<longrightarrow> r = not_loaded ?k)"
      by (rule run_steps_lowercase [OF low inv0 manual_steps_named]) simp
    then have "\<not> py_in ?k (forecasts (data (fst ?R)))"
      using low by (auto simp: keys_inv_def)
    with both show ?thesis by blast
  qed
  have c: "(''Forecasting '' @ ?k, not_loaded ?k) \<in> set (steps res)
             \<and> \<not> py_in ?k (forecasts (data w'))"
    if run: "run_manual e tickers d incl w = (w', Inr res)" for w' res
  proof -
    let ?W = "w\<lparr>data := reset_state, imported := Some (agents_DATA_STATE w)\<rparr>"
    let ?R = "run_steps e ?cs ?W []"
    note a = gen [where j = "Some (agents_DATA_STATE w)", THEN conjunct1]
    note b = gen [where j = "Some (agents_DATA_STATE w)", THEN conjunct2]
    obtain w1 slog exo where R: "?R = (w1, slog, exo)" by (cases ?R)
    with run have exo: "exo = None" and w1: "w1 = w'" and res: "steps res = slog"
      by (auto simp: run_manual_def reset_world split: option.splits)
    from run_steps_executes [OF R [unfolded exo]] obtain l where "slog = [] @ l"
      and "executes e ?cs ?W l w1"
      by blast
    then have "map fst slog = map fst ?cs"
      using executes_names by simp
    with manual_steps_has_forecast [OF assms(1), of e d incl]
    have "''Forecasting '' @ ?k \<in> set (map fst slog)" by simp
    then obtain r where r: "(''Forecasting '' @ ?k, r) \<in> set slog" by auto
    with a R have "r = not_loaded ?k" by auto
    with r res b R w1 show ?thesis by simp
  qed
  from gen [where j = i] c show ?thesis by blast
qed

text \<open>
  The input \<^verbatim>\<open>ccc\<close> in the example environment: the fetch stores the frame under
  CCC, and the forecast step, called with \<^verbatim>\<open>ccc\<close>, reports that it is not loaded.
\<close>

lemma fetch_lower_ex:
  "fetch_portfolio_data example_env ''ccc'' None reset_state =
     (small_state, check_mark @ '' CCC: 3 data points'')"
  by (simp add: fetch_portfolio_data_def string_defs fetch_one_def period_of_def small_state_def
      example_defs show_nat.simps)

lemma risk_lower_ex:
  "calculate_risk_metrics example_env (Some ''ccc'') small_state =
     (small_state, Inr (warning_sign @ ''  CCC: Insufficient data''))"
  by (simp add: calculate_risk_metrics_def string_defs small_state_def pct_change_def
      example_defs Let_def)

lemma run_lower_ex:
  "run_manual example_env ''ccc'' 2 True initial_world =
     (\<lparr>data = small_state\<lparr>sentiment := [(''ccc'', \<lparr>score = 1 / 4, label = POSITIVE\<rparr>)]\<rparr>,
       imported = Some reset_state, draws = 1, llm_calls = 0, supersteps = 0,
       tool_log = [Fetch_call ''ccc'' None, Risk_call (Some ''ccc''),
                   Forecast_call ''ccc'' (Some 2), Sentiment_call ''ccc'', Compare_call]\<rparr>,
      Inr \<lparr>steps =
             [(''Fetching Data'', check_mark @ '' CCC: 3 data points''),
              (''Risk Analysis'', warning_sign @ ''  CCC: Insufficient data''),
              (''Forecasting ccc'', not_loaded ''ccc''),
              (''Sentiment ccc'', newspaper @ '' ccc Sentiment: POSITIVE (0.25)''),
              (''Portfolio Ranking'', cross_mark @ '' Run risk analysis first.'')],
            final_response = cross_mark @ '' Run risk analysis first.'',
            data_state = Some reset_state\<rparr>)"
proof -
  have st: "strip ''ccc'' = ''ccc''"
    by (simp add: strip_def whitespace_def)
  have en: "ENABLE_SENTIMENT example_env" "random_uniform example_env n = 1 / 4"
    "format example_env = example_format" for n
    by (simp_all add: example_env_def)
  have nl: "map_of (portfolio small_state) ''ccc'' = None" "risk_metrics small_state = []"
    "sentiment small_state = []"
    by (simp_all add: small_state_def reset_state_def ccc_frame_def)
  show ?thesis
    by (simp add: run_manual_def manual_steps_def st en invoke_tool_def initial_world_def
        do_reset_state_def agents_DATA_STATE_def
        fetch_lower_ex risk_lower_ex ensemble_forecast_not_loaded nl analyze_sentiment_def
        compare_portfolio_def label_text_def example_format_def example_fmt_2f_def Let_def)
qed

theorem manual_lowercase_ticker_not_loaded_witness:
  "''ccc'' \<in> set (split_on CHR '','' ''ccc'')
   \<and> CHR ''c'' \<in> set ''ccc'' \<and> CHR ''c'' \<in> set lowercase
   \<and> py_in ''CCC''
        (portfolio (data (fst (run_manual example_env ''ccc'' 2 True initial_world))))
   \<and> (case snd (run_manual example_env ''ccc'' 2 True initial_world) of
         Inl ex \<Rightarrow> False
       | Inr res \<Rightarrow> (''Forecasting ccc'', not_loaded ''ccc'') \<in> set (steps res))
   \<and> \<not> py_in ''ccc''
          (forecasts (data (fst (run_manual example_env ''ccc'' 2 True initial_world))))"
proof -
  have a: "''ccc'' \<in> set (split_on CHR '','' ''ccc'')" by simp
  have b: "CHR ''c'' \<in> set ''ccc''" by simp
  have c: "CHR ''c'' \<in> set lowercase" by (simp add: lowercase_def)
  have st: "strip ''ccc'' = ''ccc''"
    by (simp add: strip_def whitespace_def)
  have p: "py_in ''CCC'' (portfolio small_state)"
    by (simp add: py_in_def small_state_def reset_state_def)
  show ?thesis
    using manual_lowercase_ticker_not_loaded [OF a b c, where e = example_env and d = 2
        and incl = True and w = initial_world and i = "Some reset_state"]
      a b c p
    by (simp add: run_lower_ex st)
qed

section \<open>Properties of the Autonomous mode\<close>

text \<open>
  The tools leave the counters of supersteps and of model calls alone and do not read
  them, and a run of the graph counts one superstep for every event it yields.
\<close>

lemma invoke_tool_counters:
  "supersteps (fst (invoke_tool e c w)) = supersteps w"
  "llm_calls (fst (invoke_tool e c w)) = llm_calls w"
  by (cases c; simp add: invoke_tool_def case_prod_beta)+

lemma invoke_tool_llm_calls_update:
  "invoke_tool e c (w\<lparr>llm_calls := a\<rparr>) =
     (fst (invoke_tool e c w)\<lparr>llm_calls := a\<rparr>, snd (invoke_tool e c w))"
  by (cases c; simp add: invoke_tool_def case_prod_beta)

lemma invoke_tool_supersteps_update:
  "invoke_tool e c (w\<lparr>supersteps := a\<rparr>) =
     (fst (invoke_tool e c w)\<lparr>supersteps := a\<rparr>, snd (invoke_tool e c w))"
  by (cases c; simp add: invoke_tool_def case_prod_beta)

lemma invoke_all_llm_calls_update:
  "invoke_all e cs (w\<lparr>llm_calls := a\<rparr>) = (invoke_all e cs w)\<lparr>llm_calls := a\<rparr>"
  unfolding invoke_all_def
  by (induction cs arbitrary: w) (simp_all add: invoke_tool_llm_calls_update)

lemma invoke_all_supersteps_update:
  "invoke_all e cs (w\<lparr>supersteps := a\<rparr>) = (invoke_all e cs w)\<lparr>supersteps := a\<rparr>"
  unfolding invoke_all_def
  by (induction cs arbitrary: w) (simp_all add: invoke_tool_supersteps_update)

lemma invoke_all_append:
  "invoke_all e (cs @ ds) w = invoke_all e ds (invoke_all e cs w)"
  by (simp add: invoke_all_def)

lemma invoke_all_imported: "imported (invoke_all e cs w) = imported w"
  unfolding invoke_all_def
  by (induction cs arbitrary: w) (simp_all add: invoke_tool_imported)

lemma invoke_all_log: "tool_log (invoke_all e cs w) = tool_log w @ cs"
  unfolding invoke_all_def
  by (induction cs arbitrary: w) (simp_all add: invoke_tool_log)

lemma invoke_all_counters:
  "supersteps (invoke_all e cs w) = supersteps w"
  "llm_calls (invoke_all e cs w) = llm_calls w"
  unfolding invoke_all_def
  by (induction cs arbitrary: w; simp add: invoke_tool_counters)+

text \<open>
  A tool node that returns has invoked every call of the reply, in order, whether the
  tool returned or its exception was turned into a tool message.
\<close>

lemma run_tool_calls_invoke_all:
  "run_tool_calls e cs w out = (w', Inr out') \<Longrightarrow> w' = invoke_all e cs w"
proof (induction cs arbitrary: w out)
  case Nil
  then show ?case by (simp add: invoke_all_def)
next
  case (Cons c cs)
  obtain w1 r where i: "invoke_tool e c w = (w1, r)" by (cases "invoke_tool e c w")
  have "invoke_all e (c # cs) w = invoke_all e cs w1"
    using i by (simp add: invoke_all_def)
  moreover have "\<exists>out1. run_tool_calls e cs w1 out1 = (w', Inr out')"
    using Cons.prems i by (auto split: sum.splits option.splits)
  ultimately show ?case
    using Cons.IH by auto
qed

lemma run_tool_calls_supersteps:
  "supersteps (fst (run_tool_calls e cs w out)) = supersteps w"
proof (induction cs arbitrary: w out)
  case Nil
  then show ?case by simp
next
  case (Cons c cs)
  obtain w1 r where i: "invoke_tool e c w = (w1, r)" by (cases "invoke_tool e c w")
  then have "supersteps w1 = supersteps w"
    using invoke_tool_counters(1) [of e c w] by simp
  with Cons i show ?case
    by (simp split: sum.splits option.splits)
qed

lemma graph_run_supersteps:
  "supersteps (fst (graph_run e limit n nd msgs w events)) + length events
     = supersteps w + length (fst (snd (graph_run e limit n nd msgs w events)))"
proof (induction e limit n nd msgs w events rule: graph_run.induct)
  case (1 e limit nd msgs w events)
  then show ?case by simp
next
  case (2 e limit n msgs w events)
  show ?case
  proof (cases "llm_invoke e (llm_calls w) msgs")
    case (Inl ex)
    then show ?thesis by simp
  next
    case (Inr reply)
    obtain content calls where r: "reply = (content, calls)" by (cases reply)
    show ?thesis
    proof (cases "calls = []")
      case True
      with Inr r show ?thesis by (simp add: Let_def)
    next
      case False
      with Inr r "2.IH" [OF Inr r [symmetric] refl refl refl False]
      show ?thesis by (simp add: Let_def)
    qed
  qed
next
  case (3 e limit n msgs w events)
  obtain w1 r where t: "run_tool_calls e (tool_calls_of (last msgs)) w [] = (w1, r)"
    by (cases "run_tool_calls e (tool_calls_of (last msgs)) w []")
  then have s: "supersteps w1 = supersteps w"
    using run_tool_calls_supersteps [of e "tool_calls_of (last msgs)" w "[]"] by simp
  show ?case
  proof (cases r)
    case (Inl ex)
    with t s show ?thesis by simp
  next
    case (Inr out)
    with t s "3.IH" [OF t [symmetric] Inr] show ?thesis by simp
  qed
qed

text \<open>
  A run of the graph that returns has yielded its events after the ones before it, and
  its world is the one that invoking the pending calls of a tool node and then every
  call requested in the new events gives, up to the two counters.
\<close>

lemma requested_calls_simps:
  "requested_calls [] = []"
  "requested_calls ((''agent'', [AIMessage content calls]) # evs) = calls @ requested_calls evs"
  "requested_calls ((''tools'', out) # evs) = requested_calls evs"
  "requested_calls (evs @ evs') = requested_calls evs @ requested_calls evs'"
  by (simp_all add: requested_calls_def tool_calls_of_def)

lemma graph_run_invoke_all:
  "graph_run e limit n nd msgs w events = (w', events', Inr out) \<Longrightarrow>
     \<exists>new. events' = events @ new
       \<and> w' = (invoke_all e ((case nd of Agent \<Rightarrow> [] | Tools \<Rightarrow> tool_calls_of (last msgs))
                               @ requested_calls new) w)
              \<lparr>llm_calls := llm_calls w', supersteps := supersteps w'\<rparr>"
proof (induction e limit n nd msgs w events rule: graph_run.induct)
  case (1 e limit nd msgs w events)
  then show ?case by simp
next
  case (2 e limit n msgs w events)
  show ?case
  proof (cases "llm_invoke e (llm_calls w) msgs")
    case (Inl ex)
    with "2.prems" show ?thesis by simp
  next
    case (Inr reply)
    obtain content calls where r: "reply = (content, calls)" by (cases reply)
    let ?w1 = "w\<lparr>llm_calls := Suc (llm_calls w), supersteps := Suc (supersteps w)\<rparr>"
    let ?ev = "(''agent'', [AIMessage content calls])"
    show ?thesis
    proof (cases "calls = []")
      case True
      with Inr r "2.prems" have "events' = events @ [?ev]" and "w' = ?w1"
        by (simp_all add: Let_def)
      then show ?thesis
        using True by (simp add: requested_calls_simps invoke_all_def)
    next
      case False
      with Inr r "2.prems"
      have g: "graph_run e limit n Tools (msgs @ [AIMessage content calls]) ?w1 (events @ [?ev])
                 = (w', events', Inr out)"
        by (simp add: Let_def)
      from "2.IH" [OF Inr r [symmetric] refl refl refl False g]
      obtain new where n: "events' = (events @ [?ev]) @ new"
        and w: "w' = (invoke_all e (tool_calls_of (last (msgs @ [AIMessage content calls]))
                                     @ requested_calls new) ?w1)
                     \<lparr>llm_calls := llm_calls w', supersteps := supersteps w'\<rparr>"
        by auto
      have "events' = events @ (?ev # new)" using n by simp
      moreover have "w' = (invoke_all e (requested_calls (?ev # new)) w)
                     \<lparr>llm_calls := llm_calls w', supersteps := supersteps w'\<rparr>"
        by (subst w)
          (simp add: requested_calls_simps tool_calls_of_def invoke_all_llm_calls_update
            invoke_all_supersteps_update)
      ultimately show ?thesis by (intro exI [where x = "?ev # new"]) simp
    qed
  qed
next
  case (3 e limit n msgs w events)
  let ?cs = "tool_calls_of (last msgs)"
  obtain w1 r where t: "run_tool_calls e ?cs w [] = (w1, r)"
    by (cases "run_tool_calls e ?cs w []")
  show ?case
  proof (cases r)
    case (Inl ex)
    with t "3.prems" show ?thesis by simp
  next
    case (Inr out1)
    have w1: "w1 = invoke_all e ?cs w"
      using t Inr by (simp add: run_tool_calls_invoke_all)
    from t Inr "3.prems"
    have g: "graph_run e limit n Agent (msgs @ out1) (w1\<lparr>supersteps := Suc (supersteps w1)\<rparr>)
               (events @ [(''tools'', out1)]) = (w', events', Inr out)"
      by simp
    from "3.IH" [OF t [symmetric] Inr g]
    obtain new where n: "events' = (events @ [(''tools'', out1)]) @ new"
      and w: "w' = (invoke_all e (requested_calls new) (w1\<lparr>supersteps := Suc (supersteps w1)\<rparr>))
                     \<lparr>llm_calls := llm_calls w', supersteps := supersteps w'\<rparr>"
      by auto
    have "events' = events @ ((''tools'', out1) # new)" using n by simp
    moreover have "w' = (invoke_all e (?cs @ requested_calls ((''tools'', out1) # new)) w)
                     \<lparr>llm_calls := llm_calls w', supersteps := supersteps w'\<rparr>"
      by (subst w)
        (simp add: requested_calls_simps invoke_all_supersteps_update invoke_all_append w1)
    ultimately show ?thesis by (intro exI [where x = "(''tools'', out1) # new"]) simp
  qed
qed

lemma graph_run_llm_calls:
  "graph_run e limit n nd msgs w events = (w', events', Inr out) \<Longrightarrow>
     (case nd of Agent \<Rightarrow> llm_calls w < llm_calls w' | Tools \<Rightarrow> llm_calls w \<le> llm_calls w')"
proof (induction e limit n nd msgs w events rule: graph_run.induct)
  case (1 e limit nd msgs w events)
  then show ?case by simp
next
  case (2 e limit n msgs w events)
  show ?case
  proof (cases "llm_invoke e (llm_calls w) msgs")
    case (Inl ex)
    with "2.prems" show ?thesis by simp
  next
    case (Inr reply)
    obtain content calls where r: "reply = (content, calls)" by (cases reply)
    show ?thesis
    proof (cases "calls = []")
      case True
      with Inr r "2.prems" show ?thesis by (auto simp: Let_def)
    next
      case False
      with Inr r "2.prems" "2.IH" [OF Inr r [symmetric] refl refl refl False]
      show ?thesis by (simp add: Let_def)
    qed
  qed
next
  case (3 e limit n msgs w events)
  obtain w1 r where t: "run_tool_calls e (tool_calls_of (last msgs)) w [] = (w1, r)"
    by (cases "run_tool_calls e (tool_calls_of (last msgs)) w []")
  show ?case
  proof (cases r)
    case (Inl ex)
    with t "3.prems" show ?thesis by simp
  next
    case (Inr out1)
    have "w1 = invoke_all e (tool_calls_of (last msgs)) w"
      using t Inr by (simp add: run_tool_calls_invoke_all)
    then have "llm_calls w1 = llm_calls w"
      by (simp add: invoke_all_counters)
    with t Inr "3.prems" "3.IH" [OF t [symmetric] Inr] show ?thesis by simp
  qed
qed

text \<open>
  Claim C9. When the streamed execution (recursion limit 15) completes without raising,
  \<^verbatim>\<open>run_autonomous\<close> runs the graph a second time from the same inputs, in the world
  the first execution left and without a reset in between, under the library's default
  recursion limit instead of 15. The final response is that of the second execution, the
  step log that of the first, and \<^verbatim>\<open>data_state\<close> the dictionary agents.py imported.
  The supersteps of both executions add up. The tools have run for every call the model
  requested in the first execution: the state of the tools after it is the one these
  invocations give from the reset state; when the second execution returns, it has
  called the model again, and the tools have run for the calls of the first execution
  and then for those of the second.
\<close>

theorem run_autonomous_second_execution:
  assumes "app_stream e (autonomous_inputs e query) 15
             (w\<lparr>data := reset_state, imported := Some (agents_DATA_STATE w)\<rparr>)
             = (w1, events, Inr streamed)"
  shows "run_autonomous e query w =
           (case graph_run e (default_recursion_limit e) (default_recursion_limit e) Agent
                   (autonomous_inputs e query) w1 [] of
              (w2, events2, Inl ex) \<Rightarrow>
                (w2, autonomous_failure (concat (map event_steps events)) ex)
            | (w2, events2, Inr final_state) \<Rightarrow>
                (w2, \<lparr>steps = concat (map event_steps events),
                      final_response = content_of (last final_state),
                      data_state = Some (agents_DATA_STATE w)\<rparr>))
         \<and> supersteps w1 = supersteps w + length events
         \<and> supersteps (fst (run_autonomous e query w)) =
             supersteps w + length events
             + length (fst (snd (graph_run e (default_recursion_limit e)
                                   (default_recursion_limit e) Agent
                                   (autonomous_inputs e query) w1 [])))
         \<and> data w1 = data (invoke_all e (requested_calls events)
                             (w\<lparr>data := reset_state, imported := Some (agents_DATA_STATE w)\<rparr>))
         \<and> tool_log w1 = tool_log w @ requested_calls events
         \<and> (\<forall>w2 events2 final_state.
              graph_run e (default_recursion_limit e) (default_recursion_limit e) Agent
                (autonomous_inputs e query) w1 [] = (w2, events2, Inr final_state)
              \<longrightarrow> llm_calls w1 < llm_calls w2
                \<and> data w2 = data (invoke_all e (requested_calls events @ requested_calls events2)
                                    (w\<lparr>data := reset_state,
                                       imported := Some (agents_DATA_STATE w)\<rparr>))
                \<and> tool_log w2 = tool_log w @ requested_calls events @ requested_calls events2)"
proof -
  let ?i = "autonomous_inputs e query"
  let ?W = "w\<lparr>data := reset_state, imported := Some (agents_DATA_STATE w)\<rparr>"
  let ?G = "graph_run e (default_recursion_limit e) (default_recursion_limit e) Agent ?i w1 []"
  have S: "graph_run e 15 15 Agent ?i ?W [] = (w1, events, Inr streamed)"
    using assms by (simp add: app_stream_def)
  from graph_run_invoke_all [OF S]
  have w1: "w1 = (invoke_all e (requested_calls events) ?W)
                   \<lparr>llm_calls := llm_calls w1, supersteps := supersteps w1\<rparr>"
    by simp
  have d1: "data w1 = data (invoke_all e (requested_calls events) ?W)"
    by (subst w1) simp
  have l1: "tool_log w1 = tool_log w @ requested_calls events"
    by (subst w1) (simp add: invoke_all_log)
  have i1: "imported w1 = Some (agents_DATA_STATE w)"
    by (subst w1) (simp add: invoke_all_imported)
  have second: "llm_calls w1 < llm_calls w2
      \<and> data w2 = data (invoke_all e (requested_calls events @ requested_calls events2) ?W)
      \<and> tool_log w2 = tool_log w @ requested_calls events @ requested_calls events2
      \<and> imported w2 = Some (agents_DATA_STATE w)"
    if G: "?G = (w2, events2, Inr final_state)" for w2 events2 final_state
  proof -
    from graph_run_invoke_all [OF G]
    have w2: "w2 = (invoke_all e (requested_calls events2) w1)
                     \<lparr>llm_calls := llm_calls w2, supersteps := supersteps w2\<rparr>"
      by simp
    have c: "invoke_all e (requested_calls events2) w1 =
               (invoke_all e (requested_calls events @ requested_calls events2) ?W)
                 \<lparr>llm_calls := llm_calls w1, supersteps := supersteps w1\<rparr>"
      by (subst w1)
        (simp add: invoke_all_append invoke_all_llm_calls_update invoke_all_supersteps_update)
    have "data w2 = data (invoke_all e (requested_calls events @ requested_calls events2) ?W)"
      by (subst w2) (simp add: c)
    moreover have "tool_log w2 = tool_log w @ requested_calls events @ requested_calls events2"
      by (subst w2) (simp add: c invoke_all_log)
    moreover have "imported w2 = Some (agents_DATA_STATE w)"
      by (subst w2) (simp add: c invoke_all_imported)
    moreover have "llm_calls w1 < llm_calls w2"
      using graph_run_llm_calls [OF G] by simp
    ultimately show ?thesis by simp
  qed
  obtain w2 events2 out2 where G: "?G = (w2, events2, out2)" by (cases ?G)
  have a: "run_autonomous e query w =
           (case ?G of
              (w2, events2, Inl ex) \<Rightarrow>
                (w2, autonomous_failure (concat (map event_steps events)) ex)
            | (w2, events2, Inr final_state) \<Rightarrow>
                (w2, \<lparr>steps = concat (map event_steps events),
                      final_response = content_of (last final_state),
                      data_state = Some (agents_DATA_STATE w)\<rparr>))"
  proof (cases out2)
    case (Inl ex)
    with assms G show ?thesis
      by (simp add: run_autonomous_def reset_world app_invoke_def Let_def)
  next
    case (Inr final_state)
    with second G have "agents_DATA_STATE w2 = agents_DATA_STATE w"
      by (simp add: agents_DATA_STATE_def)
    with assms G Inr show ?thesis
      by (simp add: run_autonomous_def reset_world app_invoke_def Let_def)
  qed
  have b: "supersteps w1 = supersteps w + length events"
    using graph_run_supersteps [of e 15 15 Agent ?i ?W "[]"] S by simp
  have "supersteps w2 = supersteps w1 + length events2"
    using graph_run_supersteps [of e "default_recursion_limit e" "default_recursion_limit e"
        Agent ?i w1 "[]"] G
    by simp
  moreover have "fst (run_autonomous e query w) = w2"
    by (simp add: a G split: sum.splits)
  ultimately have c: "supersteps (fst (run_autonomous e query w)) =
             supersteps w + length events + length (fst (snd ?G))"
    using b G by simp
  from a b c d1 l1 second show ?thesis by blast
qed

subsection \<open>The runs of the example models\<close>

text \<open>A string of at most \<open>n\<close> bytes has at most \<open>n\<close> characters.\<close>

lemma take_chars_short: "length s \<le> n \<Longrightarrow> take_chars n s = s"
proof (induction n arbitrary: s)
  case 0
  then show ?case by simp
next
  case (Suc n)
  show ?case
  proof (cases s)
    case Nil
    then show ?thesis by simp
  next
    case (Cons c cs)
    have "length (dropWhile is_continuation cs) \<le> length cs"
      by (rule length_dropWhile_le)
    with Suc.prems Cons have "length (dropWhile is_continuation cs) \<le> n" by simp
    from Suc.IH [OF this] Cons show ?thesis by simp
  qed
qed

text \<open>
  The tools under the model that follows the instructions: the fetch of CCC stores its
  frame, the risk step finds too few returns, and the forecast stores its entry; run
  again on the state they left, they leave it as it is.
\<close>

lemma pipeline_fetch:
  "portfolio s = [] \<or> portfolio s = [(''CCC'', ccc_frame)] \<Longrightarrow>
     fetch_portfolio_data pipeline_env ''CCC'' None s =
       (s\<lparr>portfolio := [(''CCC'', ccc_frame)]\<rparr>, check_mark @ '' CCC: 3 data points'')"
  by (auto simp: fetch_portfolio_data_def string_defs fetch_one_def period_of_def
      pipeline_env_def example_env_def example_download_def ccc_frame_def show_nat.simps)

lemma pipeline_risk:
  "portfolio s = [(''CCC'', ccc_frame)] \<Longrightarrow>
     calculate_risk_metrics pipeline_env None s =
       (s, Inr (warning_sign @ ''  CCC: Insufficient data''))"
  by (simp add: calculate_risk_metrics_def pct_change_def pipeline_env_def
      example_env_def example_download_def ccc_frame_def spy_frame_def Let_def)

lemma pipeline_forecast:
  assumes "portfolio s = [(''CCC'', ccc_frame)]"
    and "forecasts s = [] \<or> forecasts s =
           [(''CCC'', \<lparr>current = 104, predicted = 547 / 5, change_pct = 135 / 26\<rparr>)]"
  shows "ensemble_forecast pipeline_env ''CCC'' (Some 2) s =
     (s\<lparr>forecasts :=
        [(''CCC'', \<lparr>current = 104, predicted = 547 / 5, change_pct = 135 / 26\<rparr>)]\<rparr>,
      Inr (forecast_summary example_format ''CCC''
             \<lparr>current = 104, predicted = 547 / 5, change_pct = 135 / 26\<rparr>))"
proof -
  have "ensemble_pred_of pipeline_env ccc_frame 2 = ensemble_pred_of example_env ccc_frame 2"
    by (simp add: ensemble_pred_of_def pipeline_env_def)
  then have ep: "ensemble_pred_of pipeline_env ccc_frame 2 = Inr [544 / 5, 547 / 5]"
    by (simp add: ensemble_example)
  have sv: "savefig pipeline_env (plot_path pipeline_env ''CCC'') = None"
    by (simp add: pipeline_env_def example_env_def)
  have "ccc_frame \<noteq> []" and "Close (last ccc_frame) = 104"
    by (simp_all add: ccc_frame_def)
  then have f: "forecast_of pipeline_env ''CCC'' ccc_frame 2 =
      Inr \<lparr>current = 104, predicted = 547 / 5, change_pct = 135 / 26\<rparr>"
    by (simp add: forecast_of_def ep sv plot_forecast_def Let_def)
  have fm: "format pipeline_env = example_format"
    by (simp add: pipeline_env_def example_env_def)
  from assms show ?thesis
    by (auto simp: ensemble_forecast_def f fm)
qed

text \<open>
  A conversation with that model, from the reset state or from the state an earlier
  conversation left: seven supersteps, four calls of the model, and the three tools
  invoked in the order of the instructions.
\<close>

lemma pipeline_run:
  assumes "data w = reset_state \<or> data w = forecast_state" and "length inputs = 2"
  shows "graph_run pipeline_env limit (Suc (Suc (Suc (Suc (Suc (Suc (Suc k))))))) Agent inputs w [] =
     (w\<lparr>data := forecast_state, llm_calls := llm_calls w + 4, supersteps := supersteps w + 7,
        tool_log := tool_log w @ [Fetch_call ''CCC'' None, Risk_call None,
                                  Forecast_call ''CCC'' (Some 2)]\<rparr>,
      [(''agent'', [AIMessage '''' [Fetch_call ''CCC'' None]]),
       (''tools'', [ToolMessage (check_mark @ '' CCC: 3 data points'')]),
       (''agent'', [AIMessage '''' [Risk_call None]]),
       (''tools'', [ToolMessage (warning_sign @ ''  CCC: Insufficient data'')]),
       (''agent'', [AIMessage '''' [Forecast_call ''CCC'' (Some 2)]]),
       (''tools'', [ToolMessage (forecast_summary example_format ''CCC''
                      \<lparr>current = 104, predicted = 547 / 5, change_pct = 135 / 26\<rparr>)]),
       (''agent'', [AIMessage ''Summary'' []])],
      Inr (inputs @
        [AIMessage '''' [Fetch_call ''CCC'' None],
         ToolMessage (check_mark @ '' CCC: 3 data points''),
         AIMessage '''' [Risk_call None],
         ToolMessage (warning_sign @ ''  CCC: Insufficient data''),
         AIMessage '''' [Forecast_call ''CCC'' (Some 2)],
         ToolMessage (forecast_summary example_format ''CCC''
                      \<lparr>current = 104, predicted = 547 / 5, change_pct = 135 / 26\<rparr>),
         AIMessage ''Summary'' []]))"
proof -
  have llm: "llm_invoke pipeline_env n msgs = pipeline_llm n msgs" for n msgs
    by (simp add: pipeline_env_def)
  from assms(1) show ?thesis
  proof
    assume "data w = reset_state"
    with assms(2) show ?thesis
      by (simp add: llm pipeline_llm_def Let_def tool_calls_of_def invoke_tool_def
          pipeline_fetch pipeline_risk pipeline_forecast
          forecast_state_def small_state_def reset_state_def)
  next
    assume "data w = forecast_state"
    with assms(2) show ?thesis
      by (simp add: llm pipeline_llm_def Let_def tool_calls_of_def invoke_tool_def
          pipeline_fetch pipeline_risk pipeline_forecast
          forecast_state_def small_state_def reset_state_def)
  qed
qed

text \<open>
  With the model that keeps asking for the ranking, a round of the graph (agent, then
  tools) ranks the empty state; a conversation that starts at the model's call number
  \<open>10 - j\<close> takes \<open>j\<close> rounds and a last agent step. The streamed execution of
  \<^verbatim>\<open>run_autonomous\<close> starts at call number 0 and ends after three supersteps.
\<close>

lemma chatty_llm:
  "llm_invoke chatty_env n msgs =
     (if n = 1 \<or> 10 \<le> n then Inr (''Summary'', []) else Inr ('''', [Compare_call]))"
  by (simp add: chatty_env_def)

lemma chatty_final:
  assumes "llm_calls w = 1 \<or> 10 \<le> llm_calls w"
  shows "graph_run chatty_env limit (Suc k) Agent msgs w evs =
           (w\<lparr>llm_calls := Suc (llm_calls w), supersteps := Suc (supersteps w)\<rparr>,
            evs @ [(''agent'', [AIMessage ''Summary'' []])],
            Inr (msgs @ [AIMessage ''Summary'' []]))"
  using assms by (auto simp: chatty_llm Let_def)

lemma chatty_round:
  assumes "llm_calls w \<noteq> 1" and "llm_calls w < 10" and "data w = reset_state"
  shows "graph_run chatty_env limit (Suc (Suc k)) Agent msgs w evs =
           graph_run chatty_env limit k Agent
             (msgs @ [AIMessage '''' [Compare_call],
                      ToolMessage (cross_mark @ '' Run risk analysis first.'')])
             (w\<lparr>llm_calls := Suc (llm_calls w), supersteps := Suc (Suc (supersteps w)),
                tool_log := tool_log w @ [Compare_call]\<rparr>)
             (evs @ [(''agent'', [AIMessage '''' [Compare_call]]),
                     (''tools'', [ToolMessage (cross_mark @ '' Run risk analysis first.'')])])"
proof -
  have weq: "w\<lparr>llm_calls := a, tool_log := t, supersteps := b\<rparr>
              = w\<lparr>llm_calls := a, supersteps := b, tool_log := t\<rparr>" for a b t
    by simp
  from assms show ?thesis
    by (simp add: chatty_llm Let_def tool_calls_of_def invoke_tool_def compare_portfolio_def
        reset_state_def weq)
qed

lemma chatty_run:
  "llm_calls w + j = 10 \<Longrightarrow> 2 \<le> llm_calls w \<Longrightarrow> 2 * j + 1 \<le> fuel \<Longrightarrow> data w = reset_state
     \<Longrightarrow> \<exists>w' evs' msgs'.
           graph_run chatty_env limit fuel Agent msgs w evs = (w', evs', Inr msgs')
         \<and> length evs' = length evs + 2 * j + 1
         \<and> content_of (last msgs') = ''Summary''
         \<and> data w' = reset_state"
proof (induction j arbitrary: w fuel msgs evs)
  case 0
  then obtain k where "fuel = Suc k" by (cases fuel) auto
  with 0 chatty_final [of w limit k msgs evs] show ?case
    by (simp add: content_of_def)
next
  case (Suc j)
  then obtain k where fuel: "fuel = Suc (Suc k)" and k: "2 * j + 1 \<le> k"
    by (cases fuel; cases "fuel - 1") auto
  let ?w = "w\<lparr>llm_calls := Suc (llm_calls w), supersteps := Suc (Suc (supersteps w)),
               tool_log := tool_log w @ [Compare_call]\<rparr>"
  let ?msgs = "msgs @ [AIMessage '''' [Compare_call],
                      ToolMessage (cross_mark @ '' Run risk analysis first.'')]"
  let ?evs = "evs @ [(''agent'', [AIMessage '''' [Compare_call]]),
                     (''tools'', [ToolMessage (cross_mark @ '' Run risk analysis first.'')])]"
  have step: "graph_run chatty_env limit fuel Agent msgs w evs =
                graph_run chatty_env limit k Agent ?msgs ?w ?evs"
    unfolding fuel using Suc.prems by (intro chatty_round) auto
  have "\<exists>w' evs' msgs'.
           graph_run chatty_env limit k Agent ?msgs ?w ?evs = (w', evs', Inr msgs')
         \<and> length evs' = length ?evs + 2 * j + 1
         \<and> content_of (last msgs') = ''Summary''
         \<and> data w' = reset_state"
    using Suc.prems k by (intro Suc.IH) auto
  with step show ?case by auto
qed

lemma initial_world_reset:
  "do_reset_state initial_world = initial_world\<lparr>imported := Some reset_state\<rparr>"
  "initial_world\<lparr>data := reset_state, imported := Some (agents_DATA_STATE initial_world)\<rparr>
     = initial_world\<lparr>imported := Some reset_state\<rparr>"
  by (simp_all add: do_reset_state_def agents_DATA_STATE_def initial_world_def)

lemma chatty_stream:
  "app_stream chatty_env inputs 15 (initial_world\<lparr>imported := Some reset_state\<rparr>) =
     (initial_world\<lparr>imported := Some reset_state, llm_calls := 2, supersteps := 3,
                    tool_log := [Compare_call]\<rparr>,
      [(''agent'', [AIMessage '''' [Compare_call]]),
       (''tools'', [ToolMessage (cross_mark @ '' Run risk analysis first.'')]),
       (''agent'', [AIMessage ''Summary'' []])],
      Inr (inputs @ [AIMessage '''' [Compare_call],
                     ToolMessage (cross_mark @ '' Run risk analysis first.''),
                     AIMessage ''Summary'' []]))"
proof -
  let ?w = "initial_world\<lparr>imported := Some reset_state\<rparr>"
  have f: "(15::nat) = Suc (Suc (Suc 12))" by simp
  have d: "data ?w = reset_state" "llm_calls ?w = 0" "supersteps ?w = 0" "tool_log ?w = []"
    by (simp_all add: initial_world_def)
  have "graph_run chatty_env 15 (Suc (Suc (Suc 12))) Agent inputs ?w [] =
          graph_run chatty_env 15 (Suc 12) Agent
             (inputs @ [AIMessage '''' [Compare_call],
                      ToolMessage (cross_mark @ '' Run risk analysis first.'')])
             (?w\<lparr>llm_calls := Suc (llm_calls ?w),
                  supersteps := Suc (Suc (supersteps ?w)),
                  tool_log := tool_log ?w @ [Compare_call]\<rparr>)
             ([] @ [(''agent'', [AIMessage '''' [Compare_call]]),
                     (''tools'', [ToolMessage (cross_mark @ '' Run risk analysis first.'')])])"
    by (rule chatty_round) (simp_all add: d)
  also have "\<dots> = (initial_world\<lparr>imported := Some reset_state, llm_calls := 2, supersteps := 3,
                    tool_log := [Compare_call]\<rparr>,
      [(''agent'', [AIMessage '''' [Compare_call]]),
       (''tools'', [ToolMessage (cross_mark @ '' Run risk analysis first.'')]),
       (''agent'', [AIMessage ''Summary'' []])],
      Inr (inputs @ [AIMessage '''' [Compare_call],
                     ToolMessage (cross_mark @ '' Run risk analysis first.''),
                     AIMessage ''Summary'' []]))"
    by (subst chatty_final) (simp_all add: d initial_world_def)
  finally show ?thesis
    unfolding app_stream_def f .
qed

lemma chatty_second:
  "\<exists>w' evs' msgs'.
      graph_run chatty_env 25 25 Agent inputs
        (initial_world\<lparr>imported := Some reset_state, llm_calls := 2, supersteps := 3,
                       tool_log := [Compare_call]\<rparr>) []
        = (w', evs', Inr msgs')
    \<and> length evs' = 17 \<and> content_of (last msgs') = ''Summary'' \<and> supersteps w' = 20"
proof -
  let ?w = "initial_world\<lparr>imported := Some reset_state, llm_calls := 2, supersteps := 3,
                          tool_log := [Compare_call]\<rparr>"
  have "\<exists>w' evs' msgs'.
           graph_run chatty_env 25 25 Agent inputs ?w [] = (w', evs', Inr msgs')
         \<and> length evs' = length ([] :: (string \<times> message list) list) + 2 * 8 + 1
         \<and> content_of (last msgs') = ''Summary''
         \<and> data w' = reset_state"
    by (rule chatty_run) (simp_all add: initial_world_def)
  then obtain w' evs' msgs' where
    g: "graph_run chatty_env 25 25 Agent inputs ?w [] = (w', evs', Inr msgs')"
    and l: "length evs' = 17" and c: "content_of (last msgs') = ''Summary''"
    by auto
  have "supersteps w' = 20"
    using graph_run_supersteps [of chatty_env 25 25 Agent inputs ?w "[]"] g l
    by (simp add: initial_world_def)
  with g l c show ?thesis by blast
qed

lemma chatty_limit: "default_recursion_limit chatty_env = 25"
  by (simp add: chatty_env_def example_env_def)

text \<open>
  The model that follows the instructions, in the world after the imports: the streamed
  execution fetches CCC, computes the risk metrics and forecasts CCC in seven supersteps;
  the second execution invokes the same three tools again, on the state the first one
  left, in seven more. The step log is that of the first execution, and the returned
  \<^verbatim>\<open>data_state\<close> is the empty imported dictionary while the state of the tools holds
  the frame and the forecast of CCC. With the model that keeps asking for the ranking,
  the streamed execution takes three supersteps and the second one seventeen, more than
  the limit of the first.
\<close>

theorem run_autonomous_second_execution_witness:
  "app_stream pipeline_env (autonomous_inputs pipeline_env ''Analyse CCC'') 15
       (initial_world\<lparr>data := reset_state,
                      imported := Some (agents_DATA_STATE initial_world)\<rparr>)
     = (\<lparr>data = forecast_state, imported = Some reset_state, draws = 0, llm_calls = 4,
         supersteps = 7,
         tool_log = [Fetch_call ''CCC'' None, Risk_call None, Forecast_call ''CCC'' (Some 2)]\<rparr>,
        [(''agent'', [AIMessage '''' [Fetch_call ''CCC'' None]]),
         (''tools'', [ToolMessage (check_mark @ '' CCC: 3 data points'')]),
         (''agent'', [AIMessage '''' [Risk_call None]]),
         (''tools'', [ToolMessage (warning_sign @ ''  CCC: Insufficient data'')]),
         (''agent'', [AIMessage '''' [Forecast_call ''CCC'' (Some 2)]]),
         (''tools'', [ToolMessage (forecast_summary example_format ''CCC''
                        \<lparr>current = 104, predicted = 547 / 5, change_pct = 135 / 26\<rparr>)]),
         (''agent'', [AIMessage ''Summary'' []])],
        Inr (autonomous_inputs pipeline_env ''Analyse CCC'' @
          [AIMessage '''' [Fetch_call ''CCC'' None],
           ToolMessage (check_mark @ '' CCC: 3 data points''),
           AIMessage '''' [Risk_call None],
           ToolMessage (warning_sign @ ''  CCC: Insufficient data''),
           AIMessage '''' [Forecast_call ''CCC'' (Some 2)],
           ToolMessage (forecast_summary example_format ''CCC''
                        \<lparr>current = 104, predicted = 547 / 5, change_pct = 135 / 26\<rparr>),
           AIMessage ''Summary'' []]))
   \<and> graph_run pipeline_env (default_recursion_limit pipeline_env)
         (default_recursion_limit pipeline_env) Agent
         (autonomous_inputs pipeline_env ''Analyse CCC'')
         \<lparr>data = forecast_state, imported = Some reset_state, draws = 0, llm_calls = 4,
          supersteps = 7,
          tool_log = [Fetch_call ''CCC'' None, Risk_call None, Forecast_call ''CCC'' (Some 2)]\<rparr> []
       = (\<lparr>data = forecast_state, imported = Some reset_state, draws = 0, llm_calls = 8,
           supersteps = 14,
           tool_log = [Fetch_call ''CCC'' None, Risk_call None, Forecast_call ''CCC'' (Some 2),
                       Fetch_call ''CCC'' None, Risk_call None, Forecast_call ''CCC'' (Some 2)]\<rparr>,
          snd (app_stream pipeline_env (autonomous_inputs pipeline_env ''Analyse CCC'') 15
                 (initial_world\<lparr>data := reset_state,
                                imported := Some (agents_DATA_STATE initial_world)\<rparr>)))
   \<and> fst (run_autonomous pipeline_env ''Analyse CCC'' initial_world)
       = \<lparr>data = forecast_state, imported = Some reset_state, draws = 0, llm_calls = 8,
          supersteps = 14,
          tool_log = [Fetch_call ''CCC'' None, Risk_call None, Forecast_call ''CCC'' (Some 2),
                      Fetch_call ''CCC'' None, Risk_call None, Forecast_call ''CCC'' (Some 2)]\<rparr>
   \<and> final_response (snd (run_autonomous pipeline_env ''Analyse CCC'' initial_world))
       = ''Summary''
   \<and> data_state (snd (run_autonomous pipeline_env ''Analyse CCC'' initial_world))
       = Some reset_state
   \<and> steps (snd (run_autonomous pipeline_env ''Analyse CCC'' initial_world))
       = [(''Agent'', ''[Data Processed]''),
          (''Tool Output'', check_mark @ '' CCC: 3 data points...''),
          (''Agent'', ''[Data Processed]''),
          (''Tool Output'', warning_sign @ ''  CCC: Insufficient data...''),
          (''Agent'', ''[Data Processed]''),
          (''Tool Output'', forecast_summary example_format ''CCC''
               \<lparr>current = 104, predicted = 547 / 5, change_pct = 135 / 26\<rparr> @ ''...''),
          (''Agent'', ''Summary...'')]
   \<and> map_of (portfolio forecast_state) ''CCC'' = Some ccc_frame
   \<and> 15 < length (fst (snd (graph_run chatty_env (default_recursion_limit chatty_env)
                               (default_recursion_limit chatty_env) Agent
                               (autonomous_inputs chatty_env ''Analyse CCC'')
                               (initial_world\<lparr>imported := Some reset_state, llm_calls := 2,
                                              supersteps := 3,
                                              tool_log := [Compare_call]\<rparr>) [])))
   \<and> supersteps (fst (run_autonomous chatty_env ''Analyse CCC'' initial_world)) = 3 + 17"
proof -
  let ?i = "autonomous_inputs pipeline_env ''Analyse CCC''"
  let ?W = "initial_world\<lparr>data := reset_state,
                          imported := Some (agents_DATA_STATE initial_world)\<rparr>"
  let ?w1 = "\<lparr>data = forecast_state, imported = Some reset_state, draws = 0, llm_calls = 4,
         supersteps = 7,
         tool_log = [Fetch_call ''CCC'' None, Risk_call None, Forecast_call ''CCC'' (Some 2)]\<rparr>"
  let ?w2 = "\<lparr>data = forecast_state, imported = Some reset_state, draws = 0, llm_calls = 8,
          supersteps = 14,
          tool_log = [Fetch_call ''CCC'' None, Risk_call None, Forecast_call ''CCC'' (Some 2),
                      Fetch_call ''CCC'' None, Risk_call None, Forecast_call ''CCC'' (Some 2)]\<rparr>"
  let ?evs = "[(''agent'', [AIMessage '''' [Fetch_call ''CCC'' None]]),
         (''tools'', [ToolMessage (check_mark @ '' CCC: 3 data points'')]),
         (''agent'', [AIMessage '''' [Risk_call None]]),
         (''tools'', [ToolMessage (warning_sign @ ''  CCC: Insufficient data'')]),
         (''agent'', [AIMessage '''' [Forecast_call ''CCC'' (Some 2)]]),
         (''tools'', [ToolMessage (forecast_summary example_format ''CCC''
                        \<lparr>current = 104, predicted = 547 / 5, change_pct = 135 / 26\<rparr>)]),
         (''agent'', [AIMessage ''Summary'' []])]"
  let ?out = "?i @
          [AIMessage '''' [Fetch_call ''CCC'' None],
           ToolMessage (check_mark @ '' CCC: 3 data points''),
           AIMessage '''' [Risk_call None],
           ToolMessage (warning_sign @ ''  CCC: Insufficient data''),
           AIMessage '''' [Forecast_call ''CCC'' (Some 2)],
           ToolMessage (forecast_summary example_format ''CCC''
                        \<lparr>current = 104, predicted = 547 / 5, change_pct = 135 / 26\<rparr>),
           AIMessage ''Summary'' []]"
  have len: "length ?i = 2" by (simp add: autonomous_inputs_def)
  have f15: "(15::nat) = Suc (Suc (Suc (Suc (Suc (Suc (Suc 8))))))" by simp
  have f25: "(25::nat) = Suc (Suc (Suc (Suc (Suc (Suc (Suc 18))))))" by simp
  have lim: "default_recursion_limit pipeline_env = 25"
    by (simp add: pipeline_env_def example_env_def)
  have s: "app_stream pipeline_env ?i 15 ?W = (?w1, ?evs, Inr ?out)"
    unfolding app_stream_def f15
    by (subst pipeline_run) (simp_all add: len initial_world_def agents_DATA_STATE_def)
  have g: "graph_run pipeline_env 25 25 Agent ?i ?w1 [] = (?w2, ?evs, Inr ?out)"
    unfolding f25
    by (subst pipeline_run) (simp_all add: len)
  have g2: "graph_run pipeline_env (default_recursion_limit pipeline_env)
              (default_recursion_limit pipeline_env) Agent ?i ?w1 []
            = (?w2, snd (app_stream pipeline_env ?i 15 ?W))"
    by (simp only: lim g s snd_conv)
  note T = run_autonomous_second_execution [OF s]
  have r: "run_autonomous pipeline_env ''Analyse CCC'' initial_world =
             (?w2, \<lparr>steps = concat (map event_steps ?evs),
                    final_response = content_of (last ?out),
                    data_state = Some (agents_DATA_STATE initial_world)\<rparr>)"
    using T [THEN conjunct1] by (simp only: lim g prod.case sum.case)
  have r1: "fst (run_autonomous pipeline_env ''Analyse CCC'' initial_world) = ?w2"
    by (simp only: r fst_conv)
  have r2: "final_response (snd (run_autonomous pipeline_env ''Analyse CCC'' initial_world))
              = ''Summary''"
    by (simp add: r content_of_def)
  have r3: "data_state (snd (run_autonomous pipeline_env ''Analyse CCC'' initial_world))
              = Some reset_state"
  proof -
    have "agents_DATA_STATE initial_world = reset_state"
      by (simp add: agents_DATA_STATE_def initial_world_def)
    then show ?thesis by (simp add: r)
  qed
  have cap: "capitalize ''agent'' = ''Agent''"
    by (simp add: capitalize_def to_upper_def to_lower_def lowercase_def uppercase_def)
  have t1: "take_chars 300 (check_mark @ '' CCC: 3 data points'')
              = check_mark @ '' CCC: 3 data points''"
    by (rule take_chars_short) (simp add: check_mark_def)
  have t2: "take_chars 300 (warning_sign @ ''  CCC: Insufficient data'')
              = warning_sign @ ''  CCC: Insufficient data''"
    by (rule take_chars_short) (simp add: warning_sign_def)
  have t3: "take_chars 300 (forecast_summary example_format ''CCC''
               \<lparr>current = 104, predicted = 547 / 5, change_pct = 135 / 26\<rparr>)
            = forecast_summary example_format ''CCC''
               \<lparr>current = 104, predicted = 547 / 5, change_pct = 135 / 26\<rparr>"
    by (rule take_chars_short)
      (simp add: forecast_summary_def example_format_def example_fmt_2f_def chart_up_def)
  have t4: "take_chars 300 ''Summary'' = ''Summary''"
    by (rule take_chars_short) simp
  have n1: "check_mark @ '' CCC: 3 data points'' \<noteq> []"
    "warning_sign @ ''  CCC: Insufficient data'' \<noteq> []"
    "forecast_summary example_format ''CCC''
               \<lparr>current = 104, predicted = 547 / 5, change_pct = 135 / 26\<rparr> \<noteq> []"
    by (simp_all add: forecast_summary_def)
  have r4: "steps (snd (run_autonomous pipeline_env ''Analyse CCC'' initial_world))
       = [(''Agent'', ''[Data Processed]''),
          (''Tool Output'', check_mark @ '' CCC: 3 data points...''),
          (''Agent'', ''[Data Processed]''),
          (''Tool Output'', warning_sign @ ''  CCC: Insufficient data...''),
          (''Agent'', ''[Data Processed]''),
          (''Tool Output'', forecast_summary example_format ''CCC''
               \<lparr>current = 104, predicted = 547 / 5, change_pct = 135 / 26\<rparr> @ ''...''),
          (''Agent'', ''Summary...'')]"
    using n1 by (simp add: r event_steps_def Let_def content_of_def cap t1 t2 t3 t4)
  have r5: "map_of (portfolio forecast_state) ''CCC'' = Some ccc_frame"
    by (simp add: forecast_state_def small_state_def reset_state_def)
  let ?j = "autonomous_inputs chatty_env ''Analyse CCC''"
  let ?c1 = "initial_world\<lparr>imported := Some reset_state, llm_calls := 2, supersteps := 3,
                           tool_log := [Compare_call]\<rparr>"
  have cs: "app_stream chatty_env ?j 15 ?W
     = (?c1,
        [(''agent'', [AIMessage '''' [Compare_call]]),
         (''tools'', [ToolMessage (cross_mark @ '' Run risk analysis first.'')]),
         (''agent'', [AIMessage ''Summary'' []])],
        Inr (?j @ [AIMessage '''' [Compare_call],
                ToolMessage (cross_mark @ '' Run risk analysis first.''),
                AIMessage ''Summary'' []]))"
    by (simp only: initial_world_reset chatty_stream)
  obtain w' evs' msgs' where
    cg: "graph_run chatty_env 25 25 Agent ?j ?c1 [] = (w', evs', Inr msgs')"
    and l: "length evs' = 17"
    using chatty_second [of ?j] by blast
  note C = run_autonomous_second_execution [OF cs]
  have c1: "15 < length (fst (snd (graph_run chatty_env (default_recursion_limit chatty_env)
                               (default_recursion_limit chatty_env) Agent ?j ?c1 [])))"
    by (simp add: chatty_limit cg l)
  have c2: "supersteps (fst (run_autonomous chatty_env ''Analyse CCC'' initial_world)) = 3 + 17"
  proof -
    have "supersteps initial_world = 0" by (simp add: initial_world_def)
    with C [THEN conjunct2, THEN conjunct2, THEN conjunct1] l show ?thesis
      by (simp add: chatty_limit cg)
  qed
  from s g2 r1 r2 r3 r4 r5 c1 c2 show ?thesis by blast
qed

text \<open>
  Claim C8. The claim bounds every Autonomous-mode run by 15 rounds. The run of the
  example model starts with no superstep counted, executes 20 supersteps, three in the
  streamed execution and seventeen in the second one, which carries no limit of 15, and
  returns its summary without an error.
\<close>

theorem run_autonomous_exceeds_round_limit:
  "supersteps initial_world = 0
   \<and> supersteps (fst (run_autonomous chatty_env ''Analyse CCC'' initial_world)) = 20
   \<and> final_response (snd (run_autonomous chatty_env ''Analyse CCC'' initial_world)) = ''Summary''
   \<and> (15::nat) < 20"
proof -
  let ?i = "autonomous_inputs chatty_env ''Analyse CCC''"
  obtain w' evs' msgs' where
    g: "graph_run chatty_env 25 25 Agent ?i
          (initial_world\<lparr>imported := Some reset_state, llm_calls := 2, supersteps := 3,
                         tool_log := [Compare_call]\<rparr>) []
        = (w', evs', Inr msgs')"
    and c: "content_of (last msgs') = ''Summary''" and n: "supersteps w' = 20"
    using chatty_second [of ?i] by blast
  have "run_autonomous chatty_env ''Analyse CCC'' initial_world =
          (w', \<lparr>steps = concat (map event_steps
                   [(''agent'', [AIMessage '''' [Compare_call]]),
                    (''tools'', [ToolMessage (cross_mark @ '' Run risk analysis first.'')]),
                    (''agent'', [AIMessage ''Summary'' []])]),
                final_response = content_of (last msgs'),
                data_state = Some (agents_DATA_STATE w')\<rparr>)"
    by (simp add: run_autonomous_def Let_def initial_world_reset chatty_stream app_invoke_def
        chatty_limit g)
  moreover have "supersteps initial_world = 0" by (simp add: initial_world_def)
  ultimately show ?thesis
    using c n by simp
qed

end
